theory Spec2Isabelle
  imports Main "HOL-Library.Multiset"
begin

section \<open>Values, errors and promise outcomes\<close>

text \<open>
  The plug-in (\<^verbatim>\<open>src/index.js\<close>) talks to a remote table through the client object that
  \<^verbatim>\<open>azure.createTableService\<close> returns. JavaScript strings are modelled as \<^typ>\<open>string\<close>;
  a value that may be \<^verbatim>\<open>undefined\<close> is an \<^typ>\<open>'a option\<close>. A method whose name starts with an
  underscore in the source (\<^verbatim>\<open>_key\<close>, \<^verbatim>\<open>_list\<close>, ...) is named \<open>priv_key\<close>, \<open>priv_list\<close>, ...
\<close>

text \<open>An error reported by the table service (opaque to the plug-in).\<close>

datatype store_error = TableNotFound | EntityAlreadyExists | ServiceFault nat

text \<open>
  What a promise is rejected with, or what a function throws: \<open>Error msg\<close> is
  \<^verbatim>\<open>new Error(msg)\<close>, \<open>TypeError\<close> is a property read on \<^verbatim>\<open>undefined\<close>, \<open>Reason msg\<close> is
  \<^verbatim>\<open>reject(msg)\<close> with a plain string, \<open>StoreError e\<close> is \<^verbatim>\<open>reject(error)\<close> with the error
  of a store callback, \<open>FileError\<close> is the error of \<^verbatim>\<open>fs.readFile\<close>.
\<close>

datatype error =
    Error string
  | TypeError
  | Reason string
  | StoreError store_error
  | FileError string

text \<open>
  The observable end of an operation. \<open>Threw e\<close>: the function threw before it returned
  a promise. \<open>Pending\<close>: the promise it returned is never settled.
\<close>

datatype 'a outcome = Resolved 'a | Rejected error | Threw error | Pending

text \<open>
  A promise is settled once: \<^verbatim>\<open>resolve\<close> and \<^verbatim>\<open>reject\<close> on a settled promise do nothing.
\<close>

definition settle :: "'a outcome \<Rightarrow> 'a outcome \<Rightarrow> 'a outcome" where
  "settle p new = (case p of Pending \<Rightarrow> new | _ \<Rightarrow> p)"

text \<open>
  A typed entity property, as \<^verbatim>\<open>entGen.String(v)\<close> and \<^verbatim>\<open>entGen.Binary(v)\<close> build it; its
  \<^verbatim>\<open>"_"\<close> member is the raw value: a string, or a buffer that is never \<^verbatim>\<open>===\<close> to a string.
\<close>

datatype edm = EdmString string | EdmBinary string

datatype jsval = Null | Str string | Buf string

fun underscore :: "edm \<Rightarrow> jsval" where
  "underscore (EdmString v) = Str v"
| "underscore (EdmBinary v) = Buf v"

section \<open>The table service client\<close>

text \<open>An entity as the plug-in builds it, and an entry as the service returns it.\<close>

record entity =
  PartitionKey :: string
  RowKey :: string
  content :: edm
  compression :: "string option"

record entry = entity +
  Timestamp :: int

text \<open>
  A \<^verbatim>\<open>TableQuery\<close>: \<^verbatim>\<open>.where('PartitionKey eq ?', v)\<close>, \<^verbatim>\<open>.and('RowKey eq ?', v)\<close>,
  \<^verbatim>\<open>.and('RowKey ne ?', v)\<close>.
\<close>

datatype tableQuery =
    PartitionKey_eq string
  | RowKey_eq string
  | RowKey_ne string
  | And tableQuery tableQuery

datatype token = Token nat

record queryResult =
  entries :: "entry list"
  continuationToken :: "token option"

text \<open>
  The client object, over a remote state \<open>'s\<close>: each method takes the state of the
  service and returns what its callback receives (\<open>Inl\<close> or \<open>Some\<close>: the callback's
  \<^verbatim>\<open>error\<close> argument) together with the new state.
\<close>

record 's client =
  createTableIfNotExists :: "string \<Rightarrow> 's \<Rightarrow> store_error option \<times> 's"
  queryEntities :: "string \<Rightarrow> tableQuery \<Rightarrow> token option \<Rightarrow> 's \<Rightarrow> (store_error + queryResult) \<times> 's"
  insertEntity :: "string \<Rightarrow> entity \<Rightarrow> 's \<Rightarrow> (store_error + entry) \<times> 's"
  insertOrReplaceEntity :: "string \<Rightarrow> entity \<Rightarrow> 's \<Rightarrow> (store_error + entry) \<times> 's"

section \<open>Configuration and context\<close>

record config =
  connectionString :: "string option"
  storageAccount :: "string option"
  storageAccessKey :: "string option"
  tableName :: string
  manifestTag :: string
  compressIndex :: bool
  projectName :: "string option"

record revisionData =
  revisionKey :: "string option"
  previousRevisionKey :: "jsval option"
  activatedRevisionKey :: "string option"

record deployContext =
  commandOptions_revision :: "string option"
  revisionData :: "revisionData option"
  project_name :: string
  distDir :: string

text \<open>JavaScript truthiness of a possibly undefined string: the empty string is falsy.\<close>

fun truthy :: "string option \<Rightarrow> bool" where
  "truthy None = False"
| "truthy (Some v) = (v \<noteq> [])"

definition AZURE_TABLE_NAME :: string where
  "AZURE_TABLE_NAME = ''emberdeploy''"

definition AZURE_MANIFEST_TAG :: string where
  "AZURE_MANIFEST_TAG = ''manifest''"

text \<open>The characters disallowed in key fields: / \ # ? tab, line feed, carriage return.\<close>

definition AZURE_DISALLOWED_VALUES :: "char list" where
  "AZURE_DISALLOWED_VALUES =
     [CHR ''/'', CHR 0x5C, CHR ''#'', CHR ''?'', CHR 0x09, CHR 0x0A, CHR 0x0D]"

section \<open>Key codec\<close>

text \<open>\<^verbatim>\<open>Array.prototype.join\<close> on one-character strings.\<close>

fun join :: "string \<Rightarrow> char list \<Rightarrow> string" where
  "join sep [] = []"
| "join sep [c] = [c]"
| "join sep (c # d # cs) = c # sep @ join sep (d # cs)"

text \<open>
  \<^verbatim>\<open>_createClient\<close>: \<open>svc\<close> is the client \<^verbatim>\<open>azure.createTableService\<close> returns for the
  configured credentials.
\<close>

definition priv_createClient :: "config \<Rightarrow> 's client \<Rightarrow> error + 's client" where
  "priv_createClient cfg svc =
     (if truthy (connectionString cfg) then Inr svc
      else if truthy (storageAccount cfg) \<and> truthy (storageAccessKey cfg) then Inr svc
      else Inl (Error ''Missing connection string or storage account / access key combination.''))"

text \<open>\<^verbatim>\<open>_projectName\<close>: the configured name or the project's, rejected when it holds a disallowed character.\<close>

definition priv_projectName :: "config \<Rightarrow> deployContext \<Rightarrow> error + string" where
  "priv_projectName cfg ctx =
     (let name = (case projectName cfg of
                    Some v \<Rightarrow> if v \<noteq> [] then v else project_name ctx
                  | None \<Rightarrow> project_name ctx);
          containedChars = filter (\<lambda>v. v \<in> set name) AZURE_DISALLOWED_VALUES
      in if length containedChars > 0
         then Inl (Error (''Project name contains invalid characters not supported by Azure Tables: (''
                @ join '', '' containedChars
                @ ''). Use the projectName configuration value to override the name.''))
         else Inr name)"

text \<open>
  The local \<^verbatim>\<open>revisionKey\<close> of \<^verbatim>\<open>_key\<close> (line 57): the explicit revision when it is truthy,
  else the first 8 characters of \<^verbatim>\<open>context.revisionData.revisionKey\<close>.
\<close>

definition revisionKeyOf :: "deployContext \<Rightarrow> error + string" where
  "revisionKeyOf ctx =
     (let hashed = (case revisionData ctx of
                      None \<Rightarrow> Inl TypeError
                    | Some rd \<Rightarrow> (case revisionKey rd of
                                   None \<Rightarrow> Inl TypeError
                                 | Some h \<Rightarrow> Inr (take 8 h)))
      in case commandOptions_revision ctx of
           Some v \<Rightarrow> if v \<noteq> [] then Inr v else hashed
         | None \<Rightarrow> hashed)"

definition priv_key :: "config \<Rightarrow> deployContext \<Rightarrow> error + string" where
  "priv_key cfg ctx =
     (case revisionKeyOf ctx of
        Inl e \<Rightarrow> Inl e
      | Inr r \<Rightarrow> (case priv_projectName cfg ctx of
                    Inl e \<Rightarrow> Inl e
                  | Inr p \<Rightarrow> Inr (p @ '':'' @ r)))"

definition priv_currentKey :: "config \<Rightarrow> deployContext \<Rightarrow> error + string" where
  "priv_currentKey cfg ctx =
     (case priv_projectName cfg ctx of
        Inl e \<Rightarrow> Inl e
      | Inr p \<Rightarrow> Inr (p @ '':current''))"

section \<open>Listing\<close>

text \<open>One element of the array \<^verbatim>\<open>_list\<close> resolves with.\<close>

record revision =
  revision :: string
  timestamp :: int
  active :: bool

text \<open>
  \<^verbatim>\<open>sortedEntries.sort\<close> with the comparator \<^verbatim>\<open>b.Timestamp - a.Timestamp\<close>: descending
  timestamps; \<^verbatim>\<open>Array.prototype.sort\<close> is stable.
\<close>

definition sortEntries :: "entry list \<Rightarrow> entry list" where
  "sortEntries es = sort_key (\<lambda>e. - Timestamp e) es"

definition mapEntry :: "jsval \<Rightarrow> entry \<Rightarrow> revision" where
  "mapEntry current e =
     \<lparr> revision = RowKey e, timestamp = Timestamp e, active = (current = Str (RowKey e)) \<rparr>"

text \<open>
  \<^verbatim>\<open>_query\<close>: fetch a page, push its entries, and either finish (no continuation token) or
  fetch the next page. A store that hands out tokens for ever keeps the loop running: the
  result is then \<open>None\<close>.
\<close>

partial_function (option) priv_query ::
  "'s client \<Rightarrow> config \<Rightarrow> token option \<Rightarrow> tableQuery \<Rightarrow> entry list \<Rightarrow> jsval \<Rightarrow> 's
     \<Rightarrow> (revision list outcome \<times> 's) option" where
  "priv_query client cfg tok query es current s =
     (case queryEntities client (tableName cfg) query tok s of
        (Inl error, s') \<Rightarrow> Some (Rejected (StoreError error), s')
      | (Inr result, s') \<Rightarrow>
          (let es' = es @ entries result in
           case continuationToken result of
             None \<Rightarrow> Some (Resolved (map (mapEntry current) (sortEntries es')), s')
           | Some t \<Rightarrow> priv_query client cfg (Some t) query es' current s'))"

declare priv_query.simps [code]

text \<open>
  \<^verbatim>\<open>_current\<close>: ensure the table, query the pointer row, resolve with its raw content or
  with \<^verbatim>\<open>null\<close>. \<^verbatim>\<open>_currentKey\<close> runs inside the callback of the store: when it throws
  there, nothing settles the promise.
\<close>

definition priv_current ::
  "'s client \<Rightarrow> config \<Rightarrow> deployContext \<Rightarrow> 's \<Rightarrow> jsval outcome \<times> 's" where
  "priv_current svc cfg ctx s =
     (case priv_createClient cfg svc of
        Inl e \<Rightarrow> (Threw e, s)
      | Inr client \<Rightarrow>
          (case createTableIfNotExists client (tableName cfg) s of
             (Some error, s1) \<Rightarrow> (Rejected (StoreError error), s1)
           | (None, s1) \<Rightarrow>
               (case priv_currentKey cfg ctx of
                  Inl e \<Rightarrow> (Pending, s1)
                | Inr ck \<Rightarrow>
                    (case queryEntities client (tableName cfg)
                            (And (PartitionKey_eq (manifestTag cfg)) (RowKey_eq ck)) None s1 of
                       (Inl error, s2) \<Rightarrow> (Rejected (StoreError error), s2)
                     | (Inr result, s2) \<Rightarrow>
                         (case entries result of
                            e # rest \<Rightarrow> (Resolved (underscore (content e)), s2)
                          | [] \<Rightarrow> (Resolved Null, s2))))))"

text \<open>
  \<^verbatim>\<open>_list\<close>: the current pointer first, then the table, then every page of the rows of
  the manifest partition other than the pointer row.
\<close>

definition priv_list ::
  "'s client \<Rightarrow> config \<Rightarrow> deployContext \<Rightarrow> 's \<Rightarrow> (revision list outcome \<times> 's) option" where
  "priv_list svc cfg ctx s =
     (case priv_createClient cfg svc of
        Inl e \<Rightarrow> Some (Threw e, s)
      | Inr client \<Rightarrow>
          (case priv_current svc cfg ctx s of
             (Resolved current, s1) \<Rightarrow>
               (case createTableIfNotExists client (tableName cfg) s1 of
                  (Some error, s2) \<Rightarrow> Some (Rejected (StoreError error), s2)
                | (None, s2) \<Rightarrow>
                    (case priv_currentKey cfg ctx of
                       Inl e \<Rightarrow> Some (Pending, s2)
                     | Inr ck \<Rightarrow>
                         priv_query client cfg None
                           (And (PartitionKey_eq (manifestTag cfg)) (RowKey_ne ck)) [] current s2))
           | (Rejected e, s1) \<Rightarrow> Some (Rejected e, s1)
           | (Threw e, s1) \<Rightarrow> Some (Threw e, s1)
           | (Pending, s1) \<Rightarrow> Some (Pending, s1)))"

section \<open>Upload\<close>

text \<open>The modules of the platform the upload uses: \<^verbatim>\<open>fs.readFile\<close>, \<^verbatim>\<open>path.join\<close>, \<^verbatim>\<open>zlib.gzipSync\<close>.\<close>

record node =
  readFile :: "string \<Rightarrow> error + string"
  path_join :: "string \<Rightarrow> string \<Rightarrow> string"
  gzipSync :: "string \<Rightarrow> string"

definition duplicateMessage :: string where
  "duplicateMessage = ''Key already in manifest - revision already uploaded or collided.''"

text \<open>
  \<^verbatim>\<open>upload\<close>: read (and maybe compress) the file, ensure the table, look the key up in
  the first page of an equality query, reject when it is there, insert otherwise.
\<close>

definition upload ::
  "node \<Rightarrow> 's client \<Rightarrow> config \<Rightarrow> deployContext \<Rightarrow> 's \<Rightarrow> entry outcome \<times> 's" where
  "upload nd svc cfg ctx s =
     (case priv_createClient cfg svc of
        Inl e \<Rightarrow> (Threw e, s)
      | Inr client \<Rightarrow>
          (case priv_key cfg ctx of
             Inl e \<Rightarrow> (Threw e, s)
           | Inr key \<Rightarrow>
               (case readFile nd (path_join nd (distDir ctx) ''index.html'') of
                  Inl e \<Rightarrow> (Rejected e, s)
                | Inr buffer \<Rightarrow>
                    (let indexContents = (if compressIndex cfg then gzipSync nd buffer else buffer) in
                     case createTableIfNotExists client (tableName cfg) s of
                       (Some error, s1) \<Rightarrow> (Rejected (StoreError error), s1)
                     | (None, s1) \<Rightarrow>
                         (case queryEntities client (tableName cfg)
                                 (And (PartitionKey_eq (manifestTag cfg)) (RowKey_eq key)) None s1 of
                            (Inl error, s2) \<Rightarrow> (Rejected (StoreError error), s2)
                          | (Inr result, s2) \<Rightarrow>
                              (if length (entries result) > 0
                               then (Rejected (Reason duplicateMessage), s2)
                               else
                                 (let entity =
                                        (if compressIndex cfg
                                         then \<lparr> PartitionKey = manifestTag cfg, RowKey = key,
                                                content = EdmBinary indexContents,
                                                compression = Some ''gzip'' \<rparr>
                                         else \<lparr> PartitionKey = manifestTag cfg, RowKey = key,
                                                content = EdmString indexContents,
                                                compression = None \<rparr>)
                                  in case insertEntity client (tableName cfg) entity s2 of
                                       (Inl error, s3) \<Rightarrow> (Rejected (StoreError error), s3)
                                     | (Inr r, s3) \<Rightarrow> (Resolved r, s3))))))))"

section \<open>Activation\<close>

text \<open>\<^verbatim>\<open>if(!context.revisionData) context.revisionData = {}\<close>, then one member is assigned.\<close>

definition emptyRevisionData :: revisionData where
  "emptyRevisionData =
     \<lparr> revisionKey = None, previousRevisionKey = None, activatedRevisionKey = None \<rparr>"

definition ensureRevisionData :: "deployContext \<Rightarrow> revisionData" where
  "ensureRevisionData ctx =
     (case revisionData ctx of None \<Rightarrow> emptyRevisionData | Some rd \<Rightarrow> rd)"

text \<open>\<^verbatim>\<open>willActivate\<close>: record the current pointer as the previous revision key.\<close>

definition willActivate ::
  "'s client \<Rightarrow> config \<Rightarrow> deployContext \<Rightarrow> 's \<Rightarrow> unit outcome \<times> deployContext \<times> 's" where
  "willActivate svc cfg ctx s =
     (case priv_current svc cfg ctx s of
        (Resolved current, s1) \<Rightarrow>
          (Resolved (),
           ctx\<lparr> revisionData := Some ((ensureRevisionData ctx)\<lparr> previousRevisionKey := Some current \<rparr>) \<rparr>,
           s1)
      | (Rejected e, s1) \<Rightarrow> (Rejected e, ctx, s1)
      | (Threw e, s1) \<Rightarrow> (Threw e, ctx, s1)
      | (Pending, s1) \<Rightarrow> (Pending, ctx, s1))"

definition notInManifest :: "string \<Rightarrow> string" where
  "notInManifest key = ''Revision '' @ key @ '' not in manifest''"

text \<open>
  \<^verbatim>\<open>activate\<close>. Inside the executor of the promise: \<^verbatim>\<open>_list\<close>, then a callback that rejects
  when no listed revision is the key and returns \<^verbatim>\<open>true\<close> or \<^verbatim>\<open>false\<close>, then a second
  callback that takes no argument and upserts the pointer row, resolving or rejecting from
  the callback of the store. When \<^verbatim>\<open>_list\<close> rejects neither callback runs and nothing
  settles the promise; an exception thrown inside the executor rejects it. The last
  \<^verbatim>\<open>then\<close> records the activated key once the promise is resolved.
\<close>

definition activate ::
  "'s client \<Rightarrow> config \<Rightarrow> deployContext \<Rightarrow> 's
     \<Rightarrow> (unit outcome \<times> deployContext \<times> 's) option" where
  "activate svc cfg ctx s =
     (case priv_createClient cfg svc of
        Inl e \<Rightarrow> Some (Threw e, ctx, s)
      | Inr client \<Rightarrow>
          (case priv_key cfg ctx of
             Inl e \<Rightarrow> Some (Threw e, ctx, s)
           | Inr key \<Rightarrow>
               (case priv_projectName cfg ctx of
                  Inl e \<Rightarrow> Some (Threw e, ctx, s)
                | Inr pn \<Rightarrow>
                    (case priv_list svc cfg ctx s of
                       None \<Rightarrow> None
                     | Some (Threw e, s1) \<Rightarrow> Some (Rejected e, ctx, s1)
                     | Some (Rejected e, s1) \<Rightarrow> Some (Pending, ctx, s1)
                     | Some (Pending, s1) \<Rightarrow> Some (Pending, ctx, s1)
                     | Some (Resolved existingEntries, s1) \<Rightarrow>
                         (let p1 = (if list_ex (\<lambda>entry. revision entry = key) existingEntries
                                    then Pending
                                    else settle Pending (Rejected (Reason (notInManifest key))));
                              entity = \<lparr> PartitionKey = manifestTag cfg, RowKey = pn @ '':current'',
                                         content = EdmString key, compression = None \<rparr>;
                              (r, s2) = insertOrReplaceEntity client (tableName cfg) entity s1;
                              p2 = (case r of
                                      Inl error \<Rightarrow> settle p1 (Rejected (StoreError error))
                                    | Inr result \<Rightarrow> settle p1 (Resolved ()))
                          in case p2 of
                               Resolved u \<Rightarrow>
                                 Some (Resolved (),
                                       ctx\<lparr> revisionData :=
                                              Some ((ensureRevisionData ctx)\<lparr> activatedRevisionKey := Some key \<rparr>) \<rparr>,
                                       s2)
                             | other \<Rightarrow> Some (other, ctx, s2))))))"

section \<open>A table store\<close>

text \<open>
  Modelled from the spec: the table service itself (the \<^verbatim>\<open>azure-storage\<close> package) is an
  external collaborator. The spec describes it as a durable table, sorted by arrival,
  addressed by partition and row key, with equality and inequality filters, paginated
  reads linked by continuation tokens, a pure insert that fails on an existing row key, an
  upsert, an idempotent create-if-absent, a store-assigned write time, and calls that may
  fail with a store error. Here a page holds at most \<open>pageSize\<close> matching rows, a token is
  the offset of the next page, and \<open>faults\<close> schedules the failures of the coming calls
  (\<open>Some e\<close>: the next call fails with \<open>e\<close> and does nothing).
\<close>

record tableStore =
  tables :: "string \<Rightarrow> entry list option"
  clock :: int
  pageSize :: nat
  faults :: "store_error option list"

definition nextFault :: "tableStore \<Rightarrow> store_error option \<times> tableStore" where
  "nextFault s = (case faults s of [] \<Rightarrow> (None, s) | f # fs \<Rightarrow> (f, s\<lparr> faults := fs \<rparr>))"

definition tokenOffset :: "token option \<Rightarrow> nat" where
  "tokenOffset tok = (case tok of None \<Rightarrow> 0 | Some (Token n) \<Rightarrow> n)"

fun matches :: "tableQuery \<Rightarrow> entry \<Rightarrow> bool" where
  "matches (PartitionKey_eq v) e = (PartitionKey e = v)"
| "matches (RowKey_eq v) e = (RowKey e = v)"
| "matches (RowKey_ne v) e = (RowKey e \<noteq> v)"
| "matches (And p q) e = (matches p e \<and> matches q e)"

definition sameKey :: "entity \<Rightarrow> entry \<Rightarrow> bool" where
  "sameKey ent r = (PartitionKey r = PartitionKey ent \<and> RowKey r = RowKey ent)"

definition stamp :: "entity \<Rightarrow> int \<Rightarrow> entry" where
  "stamp ent t =
     \<lparr> PartitionKey = PartitionKey ent, RowKey = RowKey ent, content = content ent,
       compression = compression ent, Timestamp = t \<rparr>"

definition ts_createTableIfNotExists :: "string \<Rightarrow> tableStore \<Rightarrow> store_error option \<times> tableStore" where
  "ts_createTableIfNotExists name s =
     (case nextFault s of
        (Some e, s') \<Rightarrow> (Some e, s')
      | (None, s') \<Rightarrow>
          (case tables s' name of
             None \<Rightarrow> (None, s'\<lparr> tables := (tables s')(name \<mapsto> []) \<rparr>)
           | Some rows \<Rightarrow> (None, s')))"

definition ts_queryEntities ::
  "string \<Rightarrow> tableQuery \<Rightarrow> token option \<Rightarrow> tableStore \<Rightarrow> (store_error + queryResult) \<times> tableStore" where
  "ts_queryEntities name q tok s =
     (case nextFault s of
        (Some e, s') \<Rightarrow> (Inl e, s')
      | (None, s') \<Rightarrow>
          (case tables s' name of
             None \<Rightarrow> (Inl TableNotFound, s')
           | Some rows \<Rightarrow>
               (let matching = filter (matches q) rows;
                    off = tokenOffset tok
                in (Inr \<lparr> entries = take (pageSize s') (drop off matching),
                          continuationToken =
                            (if off + pageSize s' < length matching
                             then Some (Token (off + pageSize s')) else None) \<rparr>,
                    s'))))"

definition ts_insertEntity ::
  "string \<Rightarrow> entity \<Rightarrow> tableStore \<Rightarrow> (store_error + entry) \<times> tableStore" where
  "ts_insertEntity name ent s =
     (case nextFault s of
        (Some e, s') \<Rightarrow> (Inl e, s')
      | (None, s') \<Rightarrow>
          (case tables s' name of
             None \<Rightarrow> (Inl TableNotFound, s')
           | Some rows \<Rightarrow>
               (if list_ex (sameKey ent) rows then (Inl EntityAlreadyExists, s')
                else (let r = stamp ent (clock s')
                      in (Inr r, s'\<lparr> tables := (tables s')(name \<mapsto> rows @ [r]),
                                     clock := clock s' + 1 \<rparr>)))))"

definition ts_insertOrReplaceEntity ::
  "string \<Rightarrow> entity \<Rightarrow> tableStore \<Rightarrow> (store_error + entry) \<times> tableStore" where
  "ts_insertOrReplaceEntity name ent s =
     (case nextFault s of
        (Some e, s') \<Rightarrow> (Inl e, s')
      | (None, s') \<Rightarrow>
          (case tables s' name of
             None \<Rightarrow> (Inl TableNotFound, s')
           | Some rows \<Rightarrow>
               (let r = stamp ent (clock s')
                in (Inr r, s'\<lparr> tables := (tables s')(name \<mapsto> filter (\<lambda>x. \<not> sameKey ent x) rows @ [r]),
                               clock := clock s' + 1 \<rparr>))))"

definition tableService :: "tableStore client" where
  "tableService =
     \<lparr> createTableIfNotExists = ts_createTableIfNotExists,
       queryEntities = ts_queryEntities,
       insertEntity = ts_insertEntity,
       insertOrReplaceEntity = ts_insertOrReplaceEntity \<rparr>"

text \<open>The rows of a table; a table that does not exist has none.\<close>

definition rowsOf :: "tableStore \<Rightarrow> string \<Rightarrow> entry list" where
  "rowsOf s name = (case tables s name of None \<Rightarrow> [] | Some rows \<Rightarrow> rows)"

text \<open>What \<open>createTableIfNotExists\<close> leaves behind when it succeeds.\<close>

definition ensureTable :: "string \<Rightarrow> tableStore \<Rightarrow> tableStore" where
  "ensureTable name s =
     (case tables s name of None \<Rightarrow> s\<lparr> tables := (tables s)(name \<mapsto> []) \<rparr> | Some rows \<Rightarrow> s)"

text \<open>
  The pointer row of a project (the first row of the manifest partition under the row key
  \<open>ck\<close>) and the rows of the manifest partition under every other row key.
\<close>

definition pointerRow :: "config \<Rightarrow> string \<Rightarrow> tableStore \<Rightarrow> entry option" where
  "pointerRow cfg ck s =
     find (\<lambda>r. PartitionKey r = manifestTag cfg \<and> RowKey r = ck) (rowsOf s (tableName cfg))"

definition revisionRows :: "config \<Rightarrow> string \<Rightarrow> tableStore \<Rightarrow> entry list" where
  "revisionRows cfg ck s =
     filter (\<lambda>r. PartitionKey r = manifestTag cfg \<and> RowKey r \<noteq> ck) (rowsOf s (tableName cfg))"

section \<open>Runs of pages\<close>

text \<open>
  \<open>pageRun c tbl q tok s pss res s'\<close>: from the token \<open>tok\<close> and the state \<open>s\<close> on, the
  client answers the query \<open>q\<close> with the pages \<open>pss\<close>, one fetch after the other, each page
  but the last with a continuation token for the next fetch; the run ends in the state
  \<open>s'\<close> with a page that carries no token (\<open>res = None\<close>) or with a fetch that fails
  (\<open>res = Some e\<close>).
\<close>

inductive pageRun ::
  "'s client \<Rightarrow> string \<Rightarrow> tableQuery \<Rightarrow> token option \<Rightarrow> 's \<Rightarrow> entry list list
     \<Rightarrow> store_error option \<Rightarrow> 's \<Rightarrow> bool"
  for c :: "'s client" and tbl :: string and q :: tableQuery where
  lastPage:
    "queryEntities c tbl q tok s = (Inr r, s') \<Longrightarrow> continuationToken r = None
       \<Longrightarrow> pageRun c tbl q tok s [entries r] None s'"
| nextPage:
    "queryEntities c tbl q tok s = (Inr r, s1) \<Longrightarrow> continuationToken r = Some t
       \<Longrightarrow> pageRun c tbl q (Some t) s1 pss res s'
       \<Longrightarrow> pageRun c tbl q tok s (entries r # pss) res s'"
| failedPage:
    "queryEntities c tbl q tok s = (Inl e, s') \<Longrightarrow> pageRun c tbl q tok s [] (Some e) s'"

section \<open>Example inputs\<close>

text \<open>
  A configuration with a connection string and the default table name and manifest tag
  (\<^verbatim>\<open>defaultConfig\<close>), a context with
  an explicit revision, and a table with three revisions of the project \<open>app\<close> and its
  pointer row, which points to \<open>app:b\<close>; and a store that holds no table yet.
\<close>

definition exampleConfig :: config where
  "exampleConfig =
     \<lparr> connectionString = Some ''UseDevelopmentStorage=true'', storageAccount = None,
       storageAccessKey = None, tableName = AZURE_TABLE_NAME, manifestTag = AZURE_MANIFEST_TAG,
       compressIndex = False, projectName = None \<rparr>"

definition exampleContext :: "string \<Rightarrow> string \<Rightarrow> deployContext" where
  "exampleContext p r =
     \<lparr> commandOptions_revision = Some r, revisionData = None, project_name = p,
       distDir = ''dist'' \<rparr>"

definition exampleRow :: "string \<Rightarrow> string \<Rightarrow> int \<Rightarrow> entry" where
  "exampleRow k v t =
     \<lparr> PartitionKey = ''manifest'', RowKey = k, content = EdmString v, compression = None,
       Timestamp = t \<rparr>"

definition exampleRows :: "entry list" where
  "exampleRows =
     [exampleRow ''app:a'' ''<html>a</html>'' 1, exampleRow ''app:b'' ''<html>b</html>'' 3,
      exampleRow ''app:current'' ''app:b'' 4, exampleRow ''app:c'' ''<html>c</html>'' 2]"

definition exampleStore :: "nat \<Rightarrow> store_error option list \<Rightarrow> tableStore" where
  "exampleStore n fs =
     \<lparr> tables = (\<lambda>name. if name = ''emberdeploy'' then Some exampleRows else None),
       clock = 10, pageSize = n, faults = fs \<rparr>"

definition exampleEmptyStore :: tableStore where
  "exampleEmptyStore = \<lparr> tables = (\<lambda>name. None), clock = 10, pageSize = 1, faults = [] \<rparr>"

definition exampleNode :: node where
  "exampleNode =
     \<lparr> readFile = (\<lambda>p. if p = ''dist/index.html'' then Inr ''<html>n</html>'' else Inl (FileError p)),
       path_join = (\<lambda>a b. a @ ''/'' @ b),
       gzipSync = (\<lambda>v. ''gzip:'' @ v) \<rparr>"

section \<open>Key codec: basic facts\<close>

lemma projectName_valid:
  "priv_projectName cfg ctx = Inr p \<Longrightarrow> set p \<inter> set AZURE_DISALLOWED_VALUES = {}"
  by (auto simp: priv_projectName_def Let_def filter_empty_conv split: if_splits option.splits)

lemma colon_split:
  assumes "p1 @ CHR '':'' # r1 = p2 @ CHR '':'' # r2" "CHR '':'' \<notin> set p1" "CHR '':'' \<notin> set p2"
  shows "p1 = p2 \<and> r1 = r2"
proof -
  have "takeWhile (\<lambda>c. c \<noteq> CHR '':'') (p1 @ CHR '':'' # r1) = p1"
    using assms(2) by (subst takeWhile_append2) auto
  moreover have "takeWhile (\<lambda>c. c \<noteq> CHR '':'') (p2 @ CHR '':'' # r2) = p2"
    using assms(3) by (subst takeWhile_append2) auto
  ultimately have "p1 = p2" using assms(1) by simp
  then show ?thesis using assms(1) by simp
qed

section \<open>The paging loop, for any client\<close>

lemma query_pages:
  "pageRun c (tableName cfg) q tok s pss res s' \<Longrightarrow>
   priv_query c cfg tok q acc cur s =
     Some (case res of None \<Rightarrow> Resolved (map (mapEntry cur) (sortEntries (acc @ concat pss)))
                     | Some e \<Rightarrow> Rejected (StoreError e), s')"
proof (induction arbitrary: acc rule: pageRun.induct)
  case (lastPage tok s r s')
  then show ?case by (subst priv_query.simps) simp
next
  case (nextPage tok s r s1 t pss res s')
  show ?case
    by (subst priv_query.simps) (simp add: nextPage.hyps nextPage.IH split: option.split)
next
  case (failedPage tok s e s')
  then show ?case by (subst priv_query.simps) simp
qed

lemma pageRun_nonempty: "pageRun c tbl q tok s pss None s' \<Longrightarrow> 1 \<le> length pss"
  by (induction pss "None :: store_error option" s' rule: pageRun.induct) auto

lemma query_resolved:
  fixes c :: "'s client"
  assumes run: "priv_query c cfg tok q acc cur s = Some (Resolved rs, s')"
      and pages: "\<And>tok s r s'. queryEntities c (tableName cfg) q tok s = (Inr r, s') \<Longrightarrow> \<forall>e\<in>set (entries r). P e"
      and acc: "\<forall>e\<in>set acc. P e"
  shows "\<exists>es. rs = map (mapEntry cur) (sortEntries es) \<and> (\<forall>e\<in>set es. P e)"
proof -
  define Q where "Q = (\<lambda>(c' :: 's client) cfg' (tok :: token option) q' acc cur' (s :: 's) y.
        c' = c \<longrightarrow> cfg' = cfg \<longrightarrow> q' = q \<longrightarrow> cur' = cur \<longrightarrow> (\<forall>e\<in>set acc. P e) \<longrightarrow> y = (Resolved rs, s') \<longrightarrow>
        (\<exists>es. rs = map (mapEntry cur) (sortEntries es) \<and> (\<forall>e\<in>set es. P e)))"
  have "Q c cfg tok q acc cur s (Resolved rs, s')"
  proof (rule priv_query.raw_induct[where P = Q, OF _ run])
    fix pq :: "'s client \<Rightarrow> config \<Rightarrow> token option \<Rightarrow> tableQuery \<Rightarrow> entry list \<Rightarrow> jsval \<Rightarrow> 's \<Rightarrow> (revision list outcome \<times> 's) option"
    fix client cfg' tok query es current s y
    assume IH: "\<And>cfg tok query es current s b y. pq cfg tok query es current s b = Some y \<Longrightarrow> Q cfg tok query es current s b y"
    assume step: "(case queryEntities client (tableName cfg') query tok s of
        (Inl error, s') \<Rightarrow> Some (Rejected (StoreError error), s')
      | (Inr result, s') \<Rightarrow>
          (let es' = es @ entries result in
           case continuationToken result of
             None \<Rightarrow> Some (Resolved (map (mapEntry current) (sortEntries es')), s')
           | Some t \<Rightarrow> pq client cfg' (Some t) query es' current s')) = Some y"
    show "Q client cfg' tok query es current s y"
      unfolding Q_def
    proof (intro impI)
      assume eqs: "client = c" "cfg' = cfg" "query = q" "current = cur"
         and es: "\<forall>e\<in>set es. P e" and y: "y = (Resolved rs, s')"
      obtain a s1 where Pair: "queryEntities c (tableName cfg) q tok s = (a, s1)"
        by (cases "queryEntities c (tableName cfg) q tok s") auto
      show "\<exists>es. rs = map (mapEntry cur) (sortEntries es) \<and> (\<forall>e\<in>set es. P e)"
      proof (cases a)
        case (Inl e)
        then show ?thesis using Pair step eqs y by auto
      next
        case (Inr r)
        have pr: "\<forall>e\<in>set (entries r). P e" using pages[of tok s r s1] Pair Inr by simp
        have all: "\<forall>e\<in>set (es @ entries r). P e" using pr es by auto
        show ?thesis
        proof (cases "continuationToken r")
          case None
          have "rs = map (mapEntry cur) (sortEntries (es @ entries r))"
            using None Pair Inr step eqs y by (auto simp: Let_def)
          then show ?thesis using all by blast
        next
          case (Some t)
          have rec: "pq c cfg (Some t) q (es @ entries r) cur s1 = Some y"
            using Some Pair Inr step eqs by (simp add: Let_def)
          from IH[OF rec] all y show ?thesis by (simp add: Q_def)
        qed
      qed
    qed
  qed
  then show ?thesis using acc by (simp add: Q_def)
qed

section \<open>The table store: what each call does\<close>

lemma nextFault_healthy: "faults s = [] \<Longrightarrow> nextFault s = (None, s)"
  by (simp add: nextFault_def)

lemma nextFault_rows: "nextFault s = (f, s') \<Longrightarrow> tables s' = tables s \<and> pageSize s' = pageSize s \<and> clock s' = clock s"
  by (auto simp: nextFault_def split: list.splits)

lemma rowsOf_ensureTable: "rowsOf (ensureTable n s) t = rowsOf s t"
  by (auto simp: rowsOf_def ensureTable_def split: option.splits)

lemma tables_ensureTable: "tables (ensureTable n s) n = Some (rowsOf s n)"
  by (auto simp: rowsOf_def ensureTable_def split: option.splits)

lemma ensureTable_fields: "faults (ensureTable n s) = faults s" "pageSize (ensureTable n s) = pageSize s" "clock (ensureTable n s) = clock s"
  by (auto simp: ensureTable_def split: option.splits)

lemma ensureTable_idem: "ensureTable n (ensureTable n s) = ensureTable n s"
  by (auto simp: ensureTable_def split: option.splits)

lemma create_healthy: "faults s = [] \<Longrightarrow> createTableIfNotExists tableService n s = (None, ensureTable n s)"
  by (simp add: tableService_def ts_createTableIfNotExists_def nextFault_healthy ensureTable_def split: option.splits)

lemma create_rows: "createTableIfNotExists tableService n s = (r, s') \<Longrightarrow> rowsOf s' t = rowsOf s t"
  by (cases "nextFault s") (auto simp: tableService_def ts_createTableIfNotExists_def rowsOf_def dest!: nextFault_rows split: option.splits if_splits)

lemma query_rows: "queryEntities tableService n q tok s = (r, s') \<Longrightarrow> rowsOf s' t = rowsOf s t"
  by (cases "nextFault s") (auto simp: tableService_def ts_queryEntities_def rowsOf_def Let_def dest!: nextFault_rows split: option.splits)

lemma query_matches:
  "queryEntities tableService n q tok s = (Inr r, s') \<Longrightarrow> \<forall>e\<in>set (entries r). matches q e"
  by (cases "nextFault s") (auto simp: tableService_def ts_queryEntities_def Let_def dest!: in_set_takeD in_set_dropD split: option.splits)

lemma query_healthy:
  "faults s = [] \<Longrightarrow> tables s n = Some rows \<Longrightarrow>
   queryEntities tableService n q tok s =
     (Inr \<lparr> entries = take (pageSize s) (drop (tokenOffset tok) (filter (matches q) rows)),
            continuationToken = (if tokenOffset tok + pageSize s < length (filter (matches q) rows)
                then Some (Token (tokenOffset tok + pageSize s)) else None) \<rparr>, s)"
  by (simp add: tableService_def ts_queryEntities_def nextFault_healthy Let_def)

lemma first_of_page:
  "0 < n \<Longrightarrow> (case take n (filter P xs) of [] \<Rightarrow> a | e # rest \<Rightarrow> f e) = (case find P xs of None \<Rightarrow> a | Some e \<Rightarrow> f e)"
  by (induction xs) (auto split: list.splits nat.splits simp: take_Cons)


lemma tokenOffset_simps: "tokenOffset None = 0" "tokenOffset (Some (Token k)) = k"
  by (simp_all add: tokenOffset_def)

lemma createClient_Inr: "priv_createClient cfg svc = Inr c \<Longrightarrow> c = svc"
  by (auto simp: priv_createClient_def split: if_splits)

lemma matches_pointer:
  "matches (And (PartitionKey_eq a) (RowKey_eq b)) = (\<lambda>r. PartitionKey r = a \<and> RowKey r = b)"
  by (rule ext) simp

lemma matches_revisions:
  "matches (And (PartitionKey_eq a) (RowKey_ne b)) = (\<lambda>r. PartitionKey r = a \<and> RowKey r \<noteq> b)"
  by (rule ext) simp

lemma current_healthy:
  assumes "faults s = []" "0 < pageSize s" "priv_createClient cfg tableService = Inr c"
          "priv_currentKey cfg ctx = Inr ck"
  shows "priv_current tableService cfg ctx s =
           (Resolved (case pointerRow cfg ck s of None \<Rightarrow> Null | Some r \<Rightarrow> underscore (content r)),
            ensureTable (tableName cfg) s)"
proof -
  let ?s1 = "ensureTable (tableName cfg) s"
  have c: "c = tableService" using assms(3) by (rule createClient_Inr)
  have q: "queryEntities tableService (tableName cfg) (And (PartitionKey_eq (manifestTag cfg)) (RowKey_eq ck)) None ?s1
      = (Inr \<lparr> entries = take (pageSize s) (filter (\<lambda>r. PartitionKey r = manifestTag cfg \<and> RowKey r = ck) (rowsOf s (tableName cfg))),
            continuationToken = (if pageSize s < length (filter (\<lambda>r. PartitionKey r = manifestTag cfg \<and> RowKey r = ck) (rowsOf s (tableName cfg)))
                then Some (Token (pageSize s)) else None) \<rparr>, ?s1)"
    using query_healthy[of ?s1 "tableName cfg" "rowsOf s (tableName cfg)" "And (PartitionKey_eq (manifestTag cfg)) (RowKey_eq ck)" None]
    by (simp add: ensureTable_fields tables_ensureTable assms(1) tokenOffset_simps matches_pointer)
  show ?thesis
    using assms(3,4) first_of_page[OF assms(2), where P = "\<lambda>r. PartitionKey r = manifestTag cfg \<and> RowKey r = ck"
        and xs = "rowsOf s (tableName cfg)" and a = "(Resolved Null, ?s1)"
        and f = "\<lambda>e. (Resolved (underscore (content e)), ?s1)"]
    by (simp add: priv_current_def c create_healthy[OF assms(1)] q pointerRow_def split: option.splits list.splits)
qed

lemma query_all_healthy:
  assumes "faults s = []" "0 < pageSize s" "tables s (tableName cfg) = Some rows"
  shows "priv_query tableService cfg tok q acc cur s =
           Some (Resolved (map (mapEntry cur) (sortEntries (acc @ drop (tokenOffset tok) (filter (matches q) rows)))), s)"
proof (induction "length (filter (matches q) rows) - tokenOffset tok" arbitrary: tok acc rule: less_induct)
  case less
  let ?m = "filter (matches q) rows"
  let ?off = "tokenOffset tok"
  show ?case
  proof (cases "?off + pageSize s < length ?m")
    case True
    have dec: "length ?m - tokenOffset (Some (Token (?off + pageSize s))) < length ?m - ?off"
      using True assms(2) by (simp add: tokenOffset_simps)
    have app: "take (pageSize s) (drop ?off ?m) @ drop (?off + pageSize s) ?m = drop ?off ?m"
      by (metis add.commute append_take_drop_id drop_drop)
    show ?thesis
      apply (subst priv_query.simps)
      apply (simp add: query_healthy[OF assms(1,3)] True less(1)[OF dec])
      apply (simp add: tokenOffset_simps app)
      done
  next
    case False
    then have "take (pageSize s) (drop ?off ?m) = drop ?off ?m" by simp
    then show ?thesis
      using False by (subst priv_query.simps) (simp add: query_healthy[OF assms(1,3)])
  qed
qed

lemma list_healthy:
  assumes "faults s = []" "0 < pageSize s" "priv_createClient cfg tableService = Inr c"
          "priv_currentKey cfg ctx = Inr ck"
  shows "priv_list tableService cfg ctx s =
           Some (Resolved (map (mapEntry (case pointerRow cfg ck s of None \<Rightarrow> Null | Some r \<Rightarrow> underscore (content r)))
                               (sortEntries (revisionRows cfg ck s))),
                 ensureTable (tableName cfg) s)"
proof -
  let ?s1 = "ensureTable (tableName cfg) s"
  have c: "c = tableService" using assms(3) by (rule createClient_Inr)
  have h1: "faults ?s1 = []" "0 < pageSize ?s1" "tables ?s1 (tableName cfg) = Some (rowsOf s (tableName cfg))"
    using assms(1,2) by (simp_all add: ensureTable_fields tables_ensureTable)
  have cr: "createTableIfNotExists tableService (tableName cfg) ?s1 = (None, ?s1)"
    using create_healthy[OF h1(1), of "tableName cfg"] by (simp add: ensureTable_idem)
  show ?thesis
    using assms(3,4)
    by (simp add: priv_list_def c current_healthy[OF assms] cr query_all_healthy[OF h1]
          tokenOffset_simps matches_revisions revisionRows_def)
qed


lemma insert_healthy:
  "faults s = [] \<Longrightarrow> tables s n = Some rows \<Longrightarrow> \<not> list_ex (sameKey ent) rows \<Longrightarrow>
   insertEntity tableService n ent s =
     (Inr (stamp ent (clock s)),
      s\<lparr> tables := (tables s)(n \<mapsto> rows @ [stamp ent (clock s)]), clock := clock s + 1 \<rparr>)"
  by (simp add: tableService_def ts_insertEntity_def nextFault_healthy Let_def)

lemma upsert_healthy:
  "faults s = [] \<Longrightarrow> tables s n = Some rows \<Longrightarrow>
   insertOrReplaceEntity tableService n ent s =
     (Inr (stamp ent (clock s)),
      s\<lparr> tables := (tables s)(n \<mapsto> filter (\<lambda>x. \<not> sameKey ent x) rows @ [stamp ent (clock s)]),
         clock := clock s + 1 \<rparr>)"
  by (simp add: tableService_def ts_insertOrReplaceEntity_def nextFault_healthy Let_def)

lemma page_nonempty:
  "0 < n \<Longrightarrow> (0 < length (take n (filter P xs))) = (\<exists>x\<in>set xs. P x)"
  by (cases "filter P xs") (auto simp: filter_empty_conv take_Cons split: nat.splits dest: filter_eq_ConsD)

lemma current_rows:
  assumes "priv_current tableService cfg ctx s = (out, s')"
  shows "rowsOf s' t = rowsOf s t"
proof (cases "priv_createClient cfg tableService")
  case (Inl e)
  then show ?thesis using assms by (simp add: priv_current_def)
next
  case (Inr c)
  then have c: "c = tableService" by (rule createClient_Inr)
  obtain r1 s1 where cr: "createTableIfNotExists tableService (tableName cfg) s = (r1, s1)"
    by (cases "createTableIfNotExists tableService (tableName cfg) s") auto
  have a: "rowsOf s1 t = rowsOf s t" using cr by (rule create_rows)
  show ?thesis
  proof (cases r1)
    case (Some e)
    then show ?thesis using assms Inr c cr a by (simp add: priv_current_def)
  next
    case None
    show ?thesis
    proof (cases "priv_currentKey cfg ctx")
      case (Inl e)
      then show ?thesis using assms Inr c cr a None by (simp add: priv_current_def)
    next
      case ck: (Inr ck)
      obtain r2 s2 where q: "queryEntities tableService (tableName cfg)
          (And (PartitionKey_eq (manifestTag cfg)) (RowKey_eq ck)) None s1 = (r2, s2)"
        by (cases "queryEntities tableService (tableName cfg)
          (And (PartitionKey_eq (manifestTag cfg)) (RowKey_eq ck)) None s1") auto
      have b: "rowsOf s2 t = rowsOf s1 t" using q by (rule query_rows)
      have "s' = s2"
        using assms Inr c cr None ck q
        by (auto simp: priv_current_def split: sum.splits list.splits)
      then show ?thesis using a b by simp
    qed
  qed
qed

text \<open>The tables themselves: only a creation of the configured table, empty, can change them.\<close>

lemma create_tables:
  "createTableIfNotExists tableService n s = (r, s') \<Longrightarrow>
     tables s' = tables s \<or> (tables s n = None \<and> tables s' = (tables s)(n \<mapsto> []))"
  by (cases "nextFault s")
     (auto simp: tableService_def ts_createTableIfNotExists_def dest!: nextFault_rows
           split: option.splits)

lemma query_tables: "queryEntities tableService n q tok s = (r, s') \<Longrightarrow> tables s' = tables s"
  by (cases "nextFault s")
     (auto simp: tableService_def ts_queryEntities_def Let_def dest!: nextFault_rows
           split: option.splits)

lemma current_tables:
  assumes "priv_current tableService cfg ctx s = (out, s')"
  shows "tables s' = tables s
       \<or> (tables s (tableName cfg) = None \<and> tables s' = (tables s)(tableName cfg \<mapsto> []))"
proof (cases "priv_createClient cfg tableService")
  case (Inl e)
  then show ?thesis using assms by (simp add: priv_current_def)
next
  case (Inr c)
  then have c: "c = tableService" by (rule createClient_Inr)
  obtain r1 s1 where cr: "createTableIfNotExists tableService (tableName cfg) s = (r1, s1)"
    by (cases "createTableIfNotExists tableService (tableName cfg) s") auto
  have a: "tables s1 = tables s
       \<or> (tables s (tableName cfg) = None \<and> tables s1 = (tables s)(tableName cfg \<mapsto> []))"
    using cr by (rule create_tables)
  show ?thesis
  proof (cases r1)
    case (Some e)
    then show ?thesis using assms Inr c cr a by (simp add: priv_current_def)
  next
    case None
    show ?thesis
    proof (cases "priv_currentKey cfg ctx")
      case (Inl e)
      then show ?thesis using assms Inr c cr a None by (simp add: priv_current_def)
    next
      case ck: (Inr ck)
      obtain r2 s2 where q: "queryEntities tableService (tableName cfg)
          (And (PartitionKey_eq (manifestTag cfg)) (RowKey_eq ck)) None s1 = (r2, s2)"
        by (cases "queryEntities tableService (tableName cfg)
          (And (PartitionKey_eq (manifestTag cfg)) (RowKey_eq ck)) None s1") auto
      have b: "tables s2 = tables s1" using q by (rule query_tables)
      have "s' = s2"
        using assms Inr c cr None ck q
        by (auto simp: priv_current_def split: sum.splits list.splits)
      then show ?thesis using a b by simp
    qed
  qed
qed

lemma projectName_revisionData:
  "priv_projectName cfg (ctx\<lparr> revisionData := x \<rparr>) = priv_projectName cfg ctx"
  by (cases "projectName cfg") (simp_all add: priv_projectName_def)

lemma currentKey_revisionData:
  "priv_currentKey cfg (ctx\<lparr> revisionData := x \<rparr>) = priv_currentKey cfg ctx"
  by (simp add: priv_currentKey_def projectName_revisionData)

lemma key_projectName:
  "priv_key cfg ctx = Inr k \<Longrightarrow> \<exists>p r. priv_projectName cfg ctx = Inr p \<and> revisionKeyOf ctx = Inr r \<and> k = p @ '':'' @ r"
  by (auto simp: priv_key_def split: sum.splits)

lemma list_resolved_config:
  "priv_list svc cfg ctx s = Some (Resolved rs, s1) \<Longrightarrow>
     priv_createClient cfg svc = Inr svc \<and> (\<exists>ck. priv_currentKey cfg ctx = Inr ck)"
  by (auto simp: priv_list_def split: sum.splits prod.splits outcome.splits option.splits
           dest: createClient_Inr)

lemma activate_healthy:
  assumes h: "faults s = []" "0 < pageSize s"
      and cc: "priv_createClient cfg tableService = Inr c"
      and pn: "priv_projectName cfg ctx = Inr p"
      and key: "priv_key cfg ctx = Inr k"
  shows "\<exists>s'. activate tableService cfg ctx s =
             Some (if k \<in> RowKey ` set (revisionRows cfg (p @ '':current'') s)
                   then (Resolved (),
                         ctx\<lparr> revisionData :=
                                Some ((ensureRevisionData ctx)\<lparr> activatedRevisionKey := Some k \<rparr>) \<rparr>,
                         s')
                   else (Rejected (Reason (notInManifest k)), ctx, s'))
           \<and> faults s' = [] \<and> pageSize s' = pageSize s
           \<and> rowsOf s' (tableName cfg) =
                filter (\<lambda>x. \<not> (PartitionKey x = manifestTag cfg \<and> RowKey x = p @ '':current''))
                       (rowsOf s (tableName cfg))
                @ [\<lparr> PartitionKey = manifestTag cfg, RowKey = p @ '':current'',
                      content = EdmString k, compression = None, Timestamp = clock s \<rparr>]"
proof -
  let ?tbl = "tableName cfg"
  let ?ck = "p @ '':current''"
  let ?s1 = "ensureTable ?tbl s"
  let ?ent = "\<lparr> PartitionKey = manifestTag cfg, RowKey = ?ck, content = EdmString k, compression = None \<rparr>"
  let ?s2 = "?s1\<lparr> tables := (tables ?s1)(?tbl \<mapsto> filter (\<lambda>x. \<not> sameKey ?ent x) (rowsOf s ?tbl) @ [stamp ?ent (clock ?s1)]),
         clock := clock ?s1 + 1 \<rparr>"
  let ?listing = "map (mapEntry (case pointerRow cfg ?ck s of None \<Rightarrow> Null | Some r \<Rightarrow> underscore (content r)))
          (sortEntries (revisionRows cfg ?ck s))"
  have c: "c = tableService" using cc by (rule createClient_Inr)
  have ck: "priv_currentKey cfg ctx = Inr ?ck" using pn by (simp add: priv_currentKey_def)
  have h1: "faults ?s1 = []" "tables ?s1 ?tbl = Some (rowsOf s ?tbl)"
    using h(1) by (simp_all add: ensureTable_fields tables_ensureTable)
  have ex: "list_ex (\<lambda>entry. revision entry = k) ?listing
              = (k \<in> RowKey ` set (revisionRows cfg ?ck s))"
    by (auto simp: list_ex_iff sortEntries_def mapEntry_def)
  have act: "activate tableService cfg ctx s =
      Some (if k \<in> RowKey ` set (revisionRows cfg ?ck s)
            then (Resolved (), ctx\<lparr> revisionData := Some ((ensureRevisionData ctx)\<lparr> activatedRevisionKey := Some k \<rparr>) \<rparr>, ?s2)
            else (Rejected (Reason (notInManifest k)), ctx, ?s2))"
    using cc pn key
    by (simp add: activate_def c list_healthy[OF h cc ck] upsert_healthy[OF h1] settle_def Let_def ex
             del: image_eqI)
  have same: "sameKey ?ent = (\<lambda>x. PartitionKey x = manifestTag cfg \<and> RowKey x = ?ck)"
    by (rule ext) (simp add: sameKey_def)
  have "rowsOf ?s2 ?tbl = filter (\<lambda>x. \<not> (PartitionKey x = manifestTag cfg \<and> RowKey x = ?ck)) (rowsOf s ?tbl)
        @ [\<lparr> PartitionKey = manifestTag cfg, RowKey = ?ck, content = EdmString k, compression = None, Timestamp = clock s \<rparr>]"
    by (simp add: rowsOf_def same stamp_def ensureTable_fields)
  moreover have "faults ?s2 = []" "pageSize ?s2 = pageSize s"
    using h(1) by (simp_all add: ensureTable_fields)
  ultimately show ?thesis using act by blast
qed

lemma pointer_after:
  "find P (filter (\<lambda>x. \<not> P x) xs @ [y]) = (if P y then Some y else None)"
  by (induction xs) auto

lemma revisions_after:
  "\<not> Q y \<Longrightarrow> (\<And>x. Q x \<Longrightarrow> \<not> P x) \<Longrightarrow> filter Q (filter (\<lambda>x. \<not> P x) xs @ [y]) = filter Q xs"
  by (induction xs) auto

section \<open>Listing: sorting and the way into the paging loop\<close>

lemma sortEntries_descending: "sorted_wrt (\<lambda>a b. b \<le> a) (map Timestamp (sortEntries es))"
proof -
  have "sorted (map (\<lambda>e. - Timestamp e) (sortEntries es))"
    by (simp add: sortEntries_def)
  then show ?thesis by (simp add: sorted_map sorted_wrt_map)
qed

lemma mset_sortEntries: "mset (sortEntries es) = mset es"
  by (simp add: sortEntries_def)

lemma timestamp_mapEntry: "map timestamp (map (mapEntry cur) es) = map Timestamp es"
  by (simp add: mapEntry_def comp_def)

lemma revision_mapEntry: "map revision (map (mapEntry cur) es) = map RowKey es"
  by (simp add: mapEntry_def comp_def)

lemma current_resolved_client:
  "priv_current svc cfg ctx s = (Resolved cur, s1) \<Longrightarrow> priv_createClient cfg svc = Inr svc"
  by (auto simp: priv_current_def priv_createClient_def split: if_splits)

lemma list_unfold:
  assumes "priv_current svc cfg ctx s = (Resolved cur, s1)"
      and "createTableIfNotExists svc (tableName cfg) s1 = (None, s2)"
      and "priv_currentKey cfg ctx = Inr ck"
  shows "priv_list svc cfg ctx s =
           priv_query svc cfg None (And (PartitionKey_eq (manifestTag cfg)) (RowKey_ne ck)) [] cur s2"
  using assms current_resolved_client[OF assms(1)] by (simp add: priv_list_def)

lemma list_resolved_query:
  assumes "priv_list svc cfg ctx s = Some (Resolved rs, s')"
  shows "\<exists>cur s2 ck. priv_currentKey cfg ctx = Inr ck
           \<and> priv_query svc cfg None (And (PartitionKey_eq (manifestTag cfg)) (RowKey_ne ck)) [] cur s2
               = Some (Resolved rs, s')"
proof -
  obtain c where c: "priv_createClient cfg svc = Inr c"
    using assms by (cases "priv_createClient cfg svc") (auto simp: priv_list_def)
  then have cs: "c = svc" by (rule createClient_Inr)
  obtain o1 s1 where cur: "priv_current svc cfg ctx s = (o1, s1)"
    by (cases "priv_current svc cfg ctx s") auto
  obtain cur' where o1: "o1 = Resolved cur'"
    using assms c cur by (cases o1) (auto simp: priv_list_def)
  obtain r2 s2 where cr: "createTableIfNotExists svc (tableName cfg) s1 = (r2, s2)"
    by (cases "createTableIfNotExists svc (tableName cfg) s1") auto
  have r2: "r2 = None"
    using assms c cs cur o1 cr by (cases r2) (auto simp: priv_list_def)
  obtain ck where ck: "priv_currentKey cfg ctx = Inr ck"
    using assms c cs cur o1 cr r2 by (cases "priv_currentKey cfg ctx") (auto simp: priv_list_def)
  show ?thesis
    using assms c cs cur o1 cr r2 ck by (auto simp: priv_list_def)
qed

text \<open>A failure before the first page: \<^verbatim>\<open>_list\<close> rejects with the error of \<^verbatim>\<open>_current\<close>, or of the table creation.\<close>

lemma list_current_failure:
  "priv_current svc cfg ctx s = (Rejected e, s1) \<Longrightarrow> priv_createClient cfg svc = Inr svc
     \<Longrightarrow> priv_list svc cfg ctx s = Some (Rejected e, s1)"
  by (simp add: priv_list_def)

lemma list_create_failure:
  "priv_current svc cfg ctx s = (Resolved cur, s1)
     \<Longrightarrow> createTableIfNotExists svc (tableName cfg) s1 = (Some e, s2)
     \<Longrightarrow> priv_list svc cfg ctx s = Some (Rejected (StoreError e), s2)"
  using current_resolved_client [of svc cfg ctx s cur s1] by (simp add: priv_list_def)

section \<open>The example store, call by call\<close>

lemma example_config:
  "tableName exampleConfig = ''emberdeploy''" "manifestTag exampleConfig = ''manifest''"
  "priv_createClient exampleConfig svc = Inr svc"
  "priv_currentKey exampleConfig (exampleContext ''app'' r) = Inr ''app:current''"
  by (simp_all add: exampleConfig_def exampleContext_def priv_createClient_def priv_currentKey_def
        priv_projectName_def AZURE_DISALLOWED_VALUES_def AZURE_TABLE_NAME_def AZURE_MANIFEST_TAG_def)

lemma example_store:
  "tables (exampleStore n fs) ''emberdeploy'' = Some exampleRows"
  "faults (exampleStore n fs) = fs" "pageSize (exampleStore n fs) = n" "clock (exampleStore n fs) = 10"
  "(exampleStore n fs)\<lparr> faults := gs \<rparr> = exampleStore n gs"
  by (simp_all add: exampleStore_def)

lemma example_revisions:
  "filter (matches (And (PartitionKey_eq ''manifest'') (RowKey_ne ''app:current''))) exampleRows =
     [exampleRow ''app:a'' ''<html>a</html>'' 1, exampleRow ''app:b'' ''<html>b</html>'' 3,
      exampleRow ''app:c'' ''<html>c</html>'' 2]"
  by (simp add: exampleRows_def exampleRow_def)

lemma example_pointer:
  "filter (matches (And (PartitionKey_eq ''manifest'') (RowKey_eq ''app:current''))) exampleRows =
     [exampleRow ''app:current'' ''app:b'' 4]"
  by (simp add: exampleRows_def exampleRow_def)

lemma example_create:
  "createTableIfNotExists tableService ''emberdeploy'' (exampleStore n (None # fs)) = (None, exampleStore n fs)"
  "createTableIfNotExists tableService ''emberdeploy'' (exampleStore n []) = (None, exampleStore n [])"
  by (simp_all add: tableService_def ts_createTableIfNotExists_def nextFault_def example_store)

lemma example_query:
  "queryEntities tableService ''emberdeploy'' q tok (exampleStore n (None # fs)) =
     (Inr \<lparr> entries = take n (drop (tokenOffset tok) (filter (matches q) exampleRows)),
            continuationToken = (if tokenOffset tok + n < length (filter (matches q) exampleRows)
                                 then Some (Token (tokenOffset tok + n)) else None) \<rparr>,
      exampleStore n fs)"
  "queryEntities tableService ''emberdeploy'' q tok (exampleStore n []) =
     (Inr \<lparr> entries = take n (drop (tokenOffset tok) (filter (matches q) exampleRows)),
            continuationToken = (if tokenOffset tok + n < length (filter (matches q) exampleRows)
                                 then Some (Token (tokenOffset tok + n)) else None) \<rparr>,
      exampleStore n [])"
  "queryEntities tableService ''emberdeploy'' q tok (exampleStore n (Some e # fs)) = (Inl e, exampleStore n fs)"
  by (simp_all add: tableService_def ts_queryEntities_def nextFault_def example_store Let_def)

lemma example_current:
  "priv_current tableService exampleConfig (exampleContext ''app'' r) (exampleStore (Suc n) (None # None # fs))
     = (Resolved (Str ''app:b''), exampleStore (Suc n) fs)"
  "priv_current tableService exampleConfig (exampleContext ''app'' r) (exampleStore (Suc n) [])
     = (Resolved (Str ''app:b''), exampleStore (Suc n) [])"
  by (simp_all add: priv_current_def example_config example_create example_query example_pointer
        tokenOffset_simps exampleRow_def)

lemma pageRun_last:
  "queryEntities c tbl q tok s = (Inr \<lparr> entries = es, continuationToken = None \<rparr>, s')
     \<Longrightarrow> pageRun c tbl q tok s [es] None s'"
  using lastPage[of c tbl q tok s "\<lparr> entries = es, continuationToken = None \<rparr>" s'] by simp

lemma pageRun_next:
  "queryEntities c tbl q tok s = (Inr \<lparr> entries = es, continuationToken = Some t \<rparr>, s1)
     \<Longrightarrow> pageRun c tbl q (Some t) s1 pss res s'
     \<Longrightarrow> pageRun c tbl q tok s (es # pss) res s'"
  using nextPage[of c tbl q tok s "\<lparr> entries = es, continuationToken = Some t \<rparr>" s1 t pss res s'] by simp

lemma example_three_pages:
  "pageRun tableService ''emberdeploy'' (And (PartitionKey_eq ''manifest'') (RowKey_ne ''app:current'')) None
     (exampleStore 1 [])
     [[exampleRow ''app:a'' ''<html>a</html>'' 1], [exampleRow ''app:b'' ''<html>b</html>'' 3],
      [exampleRow ''app:c'' ''<html>c</html>'' 2]]
     None (exampleStore 1 [])"
  apply (rule pageRun_next[where t = "Token 1"])
   apply (simp add: example_query example_revisions tokenOffset_simps)
  apply (rule pageRun_next[where t = "Token 2"])
   apply (simp add: example_query example_revisions tokenOffset_simps)
  apply (rule pageRun_last)
  apply (simp add: example_query example_revisions tokenOffset_simps)
  done

lemma example_failing_page:
  "pageRun tableService ''emberdeploy'' (And (PartitionKey_eq ''manifest'') (RowKey_ne ''app:current'')) None
     (exampleStore 1 [None, Some (ServiceFault 503)])
     [[exampleRow ''app:a'' ''<html>a</html>'' 1]]
     (Some (ServiceFault 503)) (exampleStore 1 [])"
  apply (rule pageRun_next[where t = "Token 1"])
   apply (simp add: example_query example_revisions tokenOffset_simps)
  apply (rule failedPage)
  apply (simp add: example_query)
  done

lemma listed_revisions:
  assumes "faults s = []" "0 < pageSize s"
      and "priv_list tableService cfg ctx s = Some (Resolved rs, s1)"
      and "priv_projectName cfg ctx = Inr p"
  shows "revision ` set rs = RowKey ` set (revisionRows cfg (p @ '':current'') s)"
proof -
  have cc: "priv_createClient cfg tableService = Inr tableService"
    using list_resolved_config [OF assms(3)] by simp
  have ck: "priv_currentKey cfg ctx = Inr (p @ '':current'')"
    using assms(4) by (simp add: priv_currentKey_def)
  have "rs = map (mapEntry (case pointerRow cfg (p @ '':current'') s of None \<Rightarrow> Null | Some r \<Rightarrow> underscore (content r)))
               (sortEntries (revisionRows cfg (p @ '':current'') s))"
    using list_healthy [OF assms(1,2) cc ck] assms(3) by simp
  then have "map revision rs = map RowKey (sortEntries (revisionRows cfg (p @ '':current'') s))"
    by (simp only: revision_mapEntry)
  then have "set (map revision rs) = set (map RowKey (sortEntries (revisionRows cfg (p @ '':current'') s)))"
    by simp
  then show ?thesis by (simp add: sortEntries_def)
qed

section \<open>Key codec: reserved key and injectivity\<close>

text \<open>
  C4, as amended. For a project name \<open>p\<close> that \<^verbatim>\<open>_projectName\<close> accepts and the revision
  key \<open>r\<close> that \<^verbatim>\<open>_key\<close> resolves (explicit or taken from the hash), the derived row key
  is \<open>p:r\<close>, the pointer key is \<open>p:current\<close>, and the two coincide exactly when \<open>r\<close> is
  the word \<open>current\<close>: for every other revision key they are distinct.
\<close>

theorem currentKey_distinct_unless_current:
  assumes "priv_projectName cfg ctx = Inr p" and "revisionKeyOf ctx = Inr r"
  shows "priv_key cfg ctx = Inr (p @ '':'' @ r)
       \<and> priv_currentKey cfg ctx = Inr (p @ '':current'')
       \<and> ((priv_key cfg ctx = priv_currentKey cfg ctx) = (r = ''current''))"
  using assms by (auto simp: priv_key_def priv_currentKey_def)

theorem currentKey_distinct_unless_current_witness:
  "priv_projectName exampleConfig (exampleContext ''app'' ''abc12345'') = Inr ''app''
   \<and> revisionKeyOf (exampleContext ''app'' ''abc12345'') = Inr ''abc12345''
   \<and> priv_key exampleConfig (exampleContext ''app'' ''abc12345'') = Inr ''app:abc12345''
   \<and> priv_currentKey exampleConfig (exampleContext ''app'' ''abc12345'') = Inr ''app:current''
   \<and> priv_key exampleConfig (exampleContext ''app'' ''abc12345'')
       \<noteq> priv_currentKey exampleConfig (exampleContext ''app'' ''abc12345'')"
proof -
  have p: "priv_projectName exampleConfig (exampleContext ''app'' ''abc12345'') = Inr ''app''"
    by (simp add: priv_projectName_def exampleConfig_def exampleContext_def
          AZURE_DISALLOWED_VALUES_def)
  have r: "revisionKeyOf (exampleContext ''app'' ''abc12345'') = Inr ''abc12345''"
    by (simp add: revisionKeyOf_def exampleContext_def)
  from currentKey_distinct_unless_current [OF p r] p r show ?thesis by simp
qed

text \<open>
  The explicit revision \<open>current\<close> of the project \<open>app\<close> derives the row key
  \<open>app:current\<close>, which is the pointer key of the project.
\<close>

theorem currentKey_collides_with_revision_current:
  "priv_projectName exampleConfig (exampleContext ''app'' ''current'') = Inr ''app''
   \<and> revisionKeyOf (exampleContext ''app'' ''current'') = Inr ''current''
   \<and> priv_key exampleConfig (exampleContext ''app'' ''current'') = Inr ''app:current''
   \<and> priv_currentKey exampleConfig (exampleContext ''app'' ''current'') = Inr ''app:current''"
  by (simp add: priv_key_def priv_currentKey_def priv_projectName_def revisionKeyOf_def
        exampleConfig_def exampleContext_def AZURE_DISALLOWED_VALUES_def)

text \<open>
  C5, as amended. The derived key is a function of the accepted project name and the
  resolved revision key, and for project names that hold no colon it is injective in the
  pair: two derivations give the same key exactly when both the project names and the
  revision keys are equal.
\<close>

theorem key_injective_without_colon:
  assumes "priv_projectName cfg1 ctx1 = Inr p1" and "revisionKeyOf ctx1 = Inr r1"
      and "priv_projectName cfg2 ctx2 = Inr p2" and "revisionKeyOf ctx2 = Inr r2"
      and "CHR '':'' \<notin> set p1" and "CHR '':'' \<notin> set p2"
  shows "(priv_key cfg1 ctx1 = priv_key cfg2 ctx2) = (p1 = p2 \<and> r1 = r2)"
  using assms colon_split [of p1 r1 p2 r2] by (auto simp: priv_key_def)

theorem key_injective_without_colon_witness:
  "priv_projectName exampleConfig (exampleContext ''app'' ''b:c'') = Inr ''app''
   \<and> revisionKeyOf (exampleContext ''app'' ''b:c'') = Inr ''b:c''
   \<and> priv_projectName exampleConfig (exampleContext ''web'' ''b:c'') = Inr ''web''
   \<and> revisionKeyOf (exampleContext ''web'' ''b:c'') = Inr ''b:c''
   \<and> CHR '':'' \<notin> set ''app'' \<and> CHR '':'' \<notin> set ''web''
   \<and> priv_key exampleConfig (exampleContext ''app'' ''b:c'')
       \<noteq> priv_key exampleConfig (exampleContext ''web'' ''b:c'')"
proof -
  have p1: "priv_projectName exampleConfig (exampleContext ''app'' ''b:c'') = Inr ''app''"
    and p2: "priv_projectName exampleConfig (exampleContext ''web'' ''b:c'') = Inr ''web''"
    by (simp_all add: priv_projectName_def exampleConfig_def exampleContext_def
          AZURE_DISALLOWED_VALUES_def)
  have r1: "revisionKeyOf (exampleContext ''app'' ''b:c'') = Inr ''b:c''"
    and r2: "revisionKeyOf (exampleContext ''web'' ''b:c'') = Inr ''b:c''"
    by (simp_all add: revisionKeyOf_def exampleContext_def)
  have c1: "CHR '':'' \<notin> set ''app''" and c2: "CHR '':'' \<notin> set ''web''" by simp_all
  from key_injective_without_colon [OF p1 r1 p2 r2 c1 c2] p1 p2 r1 r2 show ?thesis by simp
qed

text \<open>
  The colon is not a disallowed character: the project \<open>a\<close> with the revision \<open>b:c\<close> and
  the project \<open>a:b\<close> with the revision \<open>c\<close> are both accepted and derive the same key.
\<close>

theorem key_not_injective_with_colon:
  "priv_projectName exampleConfig (exampleContext ''a'' ''b:c'') = Inr ''a''
   \<and> revisionKeyOf (exampleContext ''a'' ''b:c'') = Inr ''b:c''
   \<and> priv_projectName exampleConfig (exampleContext ''a:b'' ''c'') = Inr ''a:b''
   \<and> revisionKeyOf (exampleContext ''a:b'' ''c'') = Inr ''c''
   \<and> priv_key exampleConfig (exampleContext ''a'' ''b:c'') = Inr ''a:b:c''
   \<and> priv_key exampleConfig (exampleContext ''a:b'' ''c'') = Inr ''a:b:c''"
  by (simp add: priv_key_def priv_projectName_def revisionKeyOf_def
        exampleConfig_def exampleContext_def AZURE_DISALLOWED_VALUES_def)

section \<open>Listing: exclusion, pages, order, failure\<close>

text \<open>
  C6. On the table store, in any state (any rows, page size and scheduled failures),
  whenever \<^verbatim>\<open>_list\<close> resolves, no entry of the sequence has the pointer row key
  \<open><project>:current\<close> as its revision. The store after an activation is one such state.
\<close>

theorem list_excludes_pointer:
  assumes "priv_list tableService cfg ctx s = Some (Resolved rs, s')"
      and "priv_currentKey cfg ctx = Inr ck"
  shows "ck \<notin> revision ` set rs"
proof -
  from list_resolved_query [OF assms(1)] assms(2) obtain cur s2 where
    q: "priv_query tableService cfg None (And (PartitionKey_eq (manifestTag cfg)) (RowKey_ne ck)) [] cur s2
          = Some (Resolved rs, s')"
    by auto
  have pages: "\<forall>e\<in>set (entries r). matches (And (PartitionKey_eq (manifestTag cfg)) (RowKey_ne ck)) e"
    if "queryEntities tableService (tableName cfg)
          (And (PartitionKey_eq (manifestTag cfg)) (RowKey_ne ck)) tok s = (Inr r, s')"
    for tok s r s'
    using that by (rule query_matches)
  have "\<exists>es. rs = map (mapEntry cur) (sortEntries es)
           \<and> (\<forall>e\<in>set es. matches (And (PartitionKey_eq (manifestTag cfg)) (RowKey_ne ck)) e)"
    by (rule query_resolved [OF q pages]) simp_all
  then obtain es where rs: "rs = map (mapEntry cur) (sortEntries es)"
    and es: "\<forall>e\<in>set es. RowKey e \<noteq> ck"
    by auto
  have "revision ` set rs = RowKey ` set es"
    using revision_mapEntry [of cur "sortEntries es"] rs
    by (metis list.set_map mset_sortEntries set_mset_mset)
  then show ?thesis using es by auto
qed

text \<open>The example table holds the pointer row \<open>app:current\<close>; the listing does not.\<close>

theorem list_excludes_pointer_witness:
  "map_option fst (priv_list tableService exampleConfig (exampleContext ''app'' ''a'') (exampleStore 1 []))
     = Some (Resolved [\<lparr> revision = ''app:b'', timestamp = 3, active = True \<rparr>,
                       \<lparr> revision = ''app:c'', timestamp = 2, active = False \<rparr>,
                       \<lparr> revision = ''app:a'', timestamp = 1, active = False \<rparr>])
   \<and> priv_currentKey exampleConfig (exampleContext ''app'' ''a'') = Inr ''app:current''
   \<and> pointerRow exampleConfig ''app:current'' (exampleStore 1 []) = Some (exampleRow ''app:current'' ''app:b'' 4)
   \<and> ''app:current'' \<notin> revision ` set [\<lparr> revision = ''app:b'', timestamp = 3, active = True \<rparr>,
                       \<lparr> revision = ''app:c'', timestamp = 2, active = False \<rparr>,
                       \<lparr> revision = ''app:a'', timestamp = 1, active = False \<rparr>]"
proof -
  let ?L = "[\<lparr> revision = ''app:b'', timestamp = 3, active = True \<rparr>,
             \<lparr> revision = ''app:c'', timestamp = 2, active = False \<rparr>,
             \<lparr> revision = ''app:a'', timestamp = 1, active = False \<rparr>]"
  have a: "map_option fst (priv_list tableService exampleConfig (exampleContext ''app'' ''a'') (exampleStore 1 []))
     = Some (Resolved ?L)"
    by code_simp
  then obtain s' where l:
    "priv_list tableService exampleConfig (exampleContext ''app'' ''a'') (exampleStore 1 []) = Some (Resolved ?L, s')"
    by (cases "priv_list tableService exampleConfig (exampleContext ''app'' ''a'') (exampleStore 1 [])") auto
  have ck: "priv_currentKey exampleConfig (exampleContext ''app'' ''a'') = Inr ''app:current''"
    by (rule example_config)
  have p: "pointerRow exampleConfig ''app:current'' (exampleStore 1 []) = Some (exampleRow ''app:current'' ''app:b'' 4)"
    by (simp add: pointerRow_def rowsOf_def example_config example_store exampleRows_def exampleRow_def)
  from list_excludes_pointer [OF l ck] a ck p show ?thesis by blast
qed

text \<open>
  C7. For any client: when the pointer has been read and the table ensured, and the
  store answers the range query with a run of \<open>n \<ge> 1\<close> pages linked by continuation tokens
  and ending with a page without token, \<^verbatim>\<open>_list\<close> fetches the whole run and resolves with
  exactly the entries of all the pages: as multisets, the result is the collection of the
  records \<open>{revision: RowKey, timestamp: Timestamp, active: current === RowKey}\<close> of the
  entries of all pages, so its (revision, timestamp) pairs are exactly the (row key,
  timestamp) pairs of the pages, with the same multiplicities and the same number of
  entries: none omitted, none duplicated. The number of pages is not bounded.
\<close>

theorem list_returns_all_pages:
  assumes "priv_current svc cfg ctx s = (Resolved cur, s1)"
      and "createTableIfNotExists svc (tableName cfg) s1 = (None, s2)"
      and "priv_currentKey cfg ctx = Inr ck"
      and "pageRun svc (tableName cfg) (And (PartitionKey_eq (manifestTag cfg)) (RowKey_ne ck))
             None s2 pss None s3"
  shows "\<exists>rs. priv_list svc cfg ctx s = Some (Resolved rs, s3)
            \<and> mset rs =
                mset (map (\<lambda>e. \<lparr> revision = RowKey e, timestamp = Timestamp e,
                                  active = (cur = Str (RowKey e)) \<rparr>) (concat pss))
            \<and> mset (map (\<lambda>r. (revision r, timestamp r)) rs) =
                mset (map (\<lambda>e. (RowKey e, Timestamp e)) (concat pss))
            \<and> length rs = length (concat pss)
            \<and> 1 \<le> length pss"
proof -
  let ?f = "\<lambda>e. \<lparr> revision = RowKey e, timestamp = Timestamp e, active = (cur = Str (RowKey e)) \<rparr>"
  let ?rs = "map (mapEntry cur) (sortEntries (concat pss))"
  have f: "mapEntry cur = ?f" by (rule ext) (simp add: mapEntry_def)
  have l: "priv_list svc cfg ctx s = Some (Resolved ?rs, s3)"
    using query_pages [OF assms(4), of "[]" cur] by (simp add: list_unfold [OF assms(1-3)])
  have a: "mset ?rs = mset (map ?f (concat pss))"
    by (simp add: f mset_sortEntries)
  have "mset (map (\<lambda>r. (revision r, timestamp r)) ?rs)
          = image_mset (\<lambda>r. (revision r, timestamp r)) (mset (map ?f (concat pss)))"
    using a by (metis mset_map)
  also have "\<dots> = mset (map (\<lambda>e. (RowKey e, Timestamp e)) (concat pss))"
    by (simp add: comp_def multiset.map_comp)
  finally have b: "mset (map (\<lambda>r. (revision r, timestamp r)) ?rs)
          = mset (map (\<lambda>e. (RowKey e, Timestamp e)) (concat pss))" .
  have c: "length ?rs = length (concat pss)"
    using mset_sortEntries [of "concat pss"] by (metis length_map size_mset)
  show ?thesis using l a b c pageRun_nonempty [OF assms(4)] by blast
qed

text \<open>The example table, served one row a page: three pages.\<close>

theorem list_returns_all_pages_witness:
  "priv_current tableService exampleConfig (exampleContext ''app'' ''a'') (exampleStore 1 [])
     = (Resolved (Str ''app:b''), exampleStore 1 [])
   \<and> createTableIfNotExists tableService (tableName exampleConfig) (exampleStore 1 [])
     = (None, exampleStore 1 [])
   \<and> priv_currentKey exampleConfig (exampleContext ''app'' ''a'') = Inr ''app:current''
   \<and> pageRun tableService (tableName exampleConfig)
        (And (PartitionKey_eq (manifestTag exampleConfig)) (RowKey_ne ''app:current'')) None
        (exampleStore 1 [])
        [[exampleRow ''app:a'' ''<html>a</html>'' 1], [exampleRow ''app:b'' ''<html>b</html>'' 3],
         [exampleRow ''app:c'' ''<html>c</html>'' 2]]
        None (exampleStore 1 [])
   \<and> (\<exists>rs. priv_list tableService exampleConfig (exampleContext ''app'' ''a'') (exampleStore 1 [])
               = Some (Resolved rs, exampleStore 1 [])
           \<and> mset rs = mset [\<lparr> revision = ''app:a'', timestamp = 1, active = False \<rparr>,
                              \<lparr> revision = ''app:b'', timestamp = 3, active = True \<rparr>,
                              \<lparr> revision = ''app:c'', timestamp = 2, active = False \<rparr>]
           \<and> mset (map (\<lambda>r. (revision r, timestamp r)) rs)
               = mset [(''app:a'', 1), (''app:b'', 3), (''app:c'', 2)]
           \<and> length rs = 3)"
proof -
  have cur: "priv_current tableService exampleConfig (exampleContext ''app'' ''a'') (exampleStore 1 [])
     = (Resolved (Str ''app:b''), exampleStore 1 [])"
    using example_current(2) [of "''a''" 0] by simp
  have cr: "createTableIfNotExists tableService (tableName exampleConfig) (exampleStore 1 [])
     = (None, exampleStore 1 [])"
    by (simp add: example_config example_create)
  have ck: "priv_currentKey exampleConfig (exampleContext ''app'' ''a'') = Inr ''app:current''"
    by (rule example_config)
  have run: "pageRun tableService (tableName exampleConfig)
        (And (PartitionKey_eq (manifestTag exampleConfig)) (RowKey_ne ''app:current'')) None
        (exampleStore 1 [])
        [[exampleRow ''app:a'' ''<html>a</html>'' 1], [exampleRow ''app:b'' ''<html>b</html>'' 3],
         [exampleRow ''app:c'' ''<html>c</html>'' 2]]
        None (exampleStore 1 [])"
    using example_three_pages by (simp add: example_config)
  have "\<exists>rs. priv_list tableService exampleConfig (exampleContext ''app'' ''a'') (exampleStore 1 [])
               = Some (Resolved rs, exampleStore 1 [])
           \<and> mset rs = mset [\<lparr> revision = ''app:a'', timestamp = 1, active = False \<rparr>,
                              \<lparr> revision = ''app:b'', timestamp = 3, active = True \<rparr>,
                              \<lparr> revision = ''app:c'', timestamp = 2, active = False \<rparr>]
           \<and> mset (map (\<lambda>r. (revision r, timestamp r)) rs)
               = mset [(''app:a'', 1), (''app:b'', 3), (''app:c'', 2)]
           \<and> length rs = 3"
    using list_returns_all_pages [OF cur cr ck run] by (simp add: exampleRow_def eval_nat_numeral)
  then show ?thesis using cur cr ck run by blast
qed

text \<open>
  C8. For any client and any state: whenever \<^verbatim>\<open>_list\<close> resolves, the timestamps of the
  sequence are in descending order (each entry is at least as recent as every later one).
\<close>

theorem list_sorted_descending:
  assumes "priv_list svc cfg ctx s = Some (Resolved rs, s')"
  shows "sorted_wrt (\<lambda>a b. b \<le> a) (map timestamp rs)"
proof -
  from list_resolved_query [OF assms] obtain cur s2 ck where
    q: "priv_query svc cfg None (And (PartitionKey_eq (manifestTag cfg)) (RowKey_ne ck)) [] cur s2
          = Some (Resolved rs, s')"
    by blast
  from query_resolved [OF q, of "\<lambda>e. True"] obtain es
    where "rs = map (mapEntry cur) (sortEntries es)"
    by auto
  then have "map timestamp rs = map Timestamp (sortEntries es)"
    using timestamp_mapEntry [of cur "sortEntries es"] by simp
  then show ?thesis by (simp only: sortEntries_descending)
qed

text \<open>The example rows are stored with the timestamps 1, 3, 2 and listed as 3, 2, 1.\<close>

theorem list_sorted_descending_witness:
  "map_option fst (priv_list tableService exampleConfig (exampleContext ''app'' ''a'') (exampleStore 2 []))
     = Some (Resolved [\<lparr> revision = ''app:b'', timestamp = 3, active = True \<rparr>,
                       \<lparr> revision = ''app:c'', timestamp = 2, active = False \<rparr>,
                       \<lparr> revision = ''app:a'', timestamp = 1, active = False \<rparr>])
   \<and> sorted_wrt (\<lambda>a b. b \<le> a)
        (map timestamp [\<lparr> revision = ''app:b'', timestamp = 3, active = True \<rparr>,
                        \<lparr> revision = ''app:c'', timestamp = 2, active = False \<rparr>,
                        \<lparr> revision = ''app:a'', timestamp = 1, active = False \<rparr>])"
proof -
  let ?L = "[\<lparr> revision = ''app:b'', timestamp = 3, active = True \<rparr>,
             \<lparr> revision = ''app:c'', timestamp = 2, active = False \<rparr>,
             \<lparr> revision = ''app:a'', timestamp = 1, active = False \<rparr>]"
  have a: "map_option fst (priv_list tableService exampleConfig (exampleContext ''app'' ''a'') (exampleStore 2 []))
     = Some (Resolved ?L)"
    by code_simp
  then obtain s' where
    "priv_list tableService exampleConfig (exampleContext ''app'' ''a'') (exampleStore 2 []) = Some (Resolved ?L, s')"
    by (cases "priv_list tableService exampleConfig (exampleContext ''app'' ''a'') (exampleStore 2 [])") auto
  from list_sorted_descending [OF this] a show ?thesis by blast
qed

text \<open>
  C9. For any client: when a fetch of the run of pages fails with a store error \<open>e\<close>,
  after any number of pages fetched with success, \<^verbatim>\<open>_list\<close> rejects with \<open>e\<close>; the pages
  \<open>pss\<close> accumulated so far are not returned.
\<close>

theorem list_page_failure_rejects:
  assumes "priv_current svc cfg ctx s = (Resolved cur, s1)"
      and "createTableIfNotExists svc (tableName cfg) s1 = (None, s2)"
      and "priv_currentKey cfg ctx = Inr ck"
      and "pageRun svc (tableName cfg) (And (PartitionKey_eq (manifestTag cfg)) (RowKey_ne ck))
             None s2 pss (Some e) s3"
  shows "priv_list svc cfg ctx s = Some (Rejected (StoreError e), s3)"
  using query_pages [OF assms(4), of "[]" cur]
  by (simp add: list_unfold [OF assms(1-3)])

text \<open>The example table, one row a page, with the second page fetch failing.\<close>

theorem list_page_failure_rejects_witness:
  "priv_current tableService exampleConfig (exampleContext ''app'' ''a'')
       (exampleStore 1 [None, None, None, None, Some (ServiceFault 503)])
     = (Resolved (Str ''app:b''), exampleStore 1 [None, None, Some (ServiceFault 503)])
   \<and> createTableIfNotExists tableService (tableName exampleConfig)
       (exampleStore 1 [None, None, Some (ServiceFault 503)])
     = (None, exampleStore 1 [None, Some (ServiceFault 503)])
   \<and> priv_currentKey exampleConfig (exampleContext ''app'' ''a'') = Inr ''app:current''
   \<and> pageRun tableService (tableName exampleConfig)
        (And (PartitionKey_eq (manifestTag exampleConfig)) (RowKey_ne ''app:current'')) None
        (exampleStore 1 [None, Some (ServiceFault 503)])
        [[exampleRow ''app:a'' ''<html>a</html>'' 1]]
        (Some (ServiceFault 503)) (exampleStore 1 [])
   \<and> priv_list tableService exampleConfig (exampleContext ''app'' ''a'')
        (exampleStore 1 [None, None, None, None, Some (ServiceFault 503)])
     = Some (Rejected (StoreError (ServiceFault 503)), exampleStore 1 [])"
proof -
  have cur: "priv_current tableService exampleConfig (exampleContext ''app'' ''a'')
       (exampleStore 1 [None, None, None, None, Some (ServiceFault 503)])
     = (Resolved (Str ''app:b''), exampleStore 1 [None, None, Some (ServiceFault 503)])"
    using example_current(1) [of "''a''" 0 "[None, None, Some (ServiceFault 503)]"] by simp
  have cr: "createTableIfNotExists tableService (tableName exampleConfig)
       (exampleStore 1 [None, None, Some (ServiceFault 503)])
     = (None, exampleStore 1 [None, Some (ServiceFault 503)])"
    by (simp add: example_config example_create)
  have ck: "priv_currentKey exampleConfig (exampleContext ''app'' ''a'') = Inr ''app:current''"
    by (rule example_config)
  have run: "pageRun tableService (tableName exampleConfig)
        (And (PartitionKey_eq (manifestTag exampleConfig)) (RowKey_ne ''app:current'')) None
        (exampleStore 1 [None, Some (ServiceFault 503)])
        [[exampleRow ''app:a'' ''<html>a</html>'' 1]]
        (Some (ServiceFault 503)) (exampleStore 1 [])"
    using example_failing_page by (simp add: example_config)
  from list_page_failure_rejects [OF cur cr ck run] cur cr ck run show ?thesis by simp
qed

section \<open>Upload: duplicate or insert\<close>

text \<open>
  C3. On a table store that answers every call (no scheduled failure, pages of at least
  one row), with credentials configured, a derived key \<open>k\<close> and a readable file: if a row
  with the row key \<open>k\<close> exists in the manifest partition, \<^verbatim>\<open>upload\<close> rejects with the
  duplicate message and the rows of every table are unchanged; otherwise it resolves and
  the table holds exactly one more row, the last, with the manifest partition, the row key
  \<open>k\<close>, and the payload as content (binary and tagged \<open>gzip\<close> when compressed, text and
  untagged otherwise), every other table being unchanged.
\<close>

theorem upload_duplicate_or_insert:
  assumes "faults s = []" "0 < pageSize s" "priv_createClient cfg tableService = Inr c"
          "priv_key cfg ctx = Inr k"
          "readFile nd (path_join nd (distDir ctx) ''index.html'') = Inr buffer"
  shows "if (\<exists>r\<in>set (rowsOf s (tableName cfg)). PartitionKey r = manifestTag cfg \<and> RowKey r = k)
         then \<exists>s'. upload nd tableService cfg ctx s = (Rejected (Reason duplicateMessage), s')
                   \<and> (\<forall>t. rowsOf s' t = rowsOf s t)
         else \<exists>r s'. upload nd tableService cfg ctx s = (Resolved r, s')
                   \<and> rowsOf s' (tableName cfg) = rowsOf s (tableName cfg) @ [r]
                   \<and> (\<forall>t. t \<noteq> tableName cfg \<longrightarrow> rowsOf s' t = rowsOf s t)
                   \<and> PartitionKey r = manifestTag cfg \<and> RowKey r = k
                   \<and> content r = (if compressIndex cfg then EdmBinary (gzipSync nd buffer) else EdmString buffer)
                   \<and> compression r = (if compressIndex cfg then Some ''gzip'' else None)"
proof -
  let ?tbl = "tableName cfg"
  let ?s1 = "ensureTable ?tbl s"
  let ?P = "\<lambda>r. PartitionKey r = manifestTag cfg \<and> RowKey r = k"
  have c: "c = tableService" using assms(3) by (rule createClient_Inr)
  have h1: "faults ?s1 = []" "tables ?s1 ?tbl = Some (rowsOf s ?tbl)"
    using assms(1) by (simp_all add: ensureTable_fields tables_ensureTable)
  have q: "queryEntities tableService ?tbl (And (PartitionKey_eq (manifestTag cfg)) (RowKey_eq k)) None ?s1
      = (Inr \<lparr> entries = take (pageSize s) (filter ?P (rowsOf s ?tbl)),
            continuationToken = (if pageSize s < length (filter ?P (rowsOf s ?tbl))
                then Some (Token (pageSize s)) else None) \<rparr>, ?s1)"
    using query_healthy[OF h1, of "And (PartitionKey_eq (manifestTag cfg)) (RowKey_eq k)" None]
    by (simp add: ensureTable_fields tokenOffset_simps matches_pointer)
  show ?thesis
  proof (cases "\<exists>r\<in>set (rowsOf s ?tbl). ?P r")
    case True
    then have "0 < length (take (pageSize s) (filter ?P (rowsOf s ?tbl)))"
      using page_nonempty[OF assms(2), of ?P "rowsOf s ?tbl"] by simp
    then have "upload nd tableService cfg ctx s = (Rejected (Reason duplicateMessage), ?s1)"
      using assms(3,4,5) by (simp add: upload_def c create_healthy[OF assms(1)] q Let_def)
    then show ?thesis using True by (simp add: rowsOf_ensureTable)
  next
    case False
    then have none: "\<not> 0 < length (take (pageSize s) (filter ?P (rowsOf s ?tbl)))"
      using page_nonempty[OF assms(2), of ?P "rowsOf s ?tbl"] by simp
    define ent where "ent = (if compressIndex cfg
         then \<lparr> PartitionKey = manifestTag cfg, RowKey = k, content = EdmBinary (gzipSync nd buffer), compression = Some ''gzip'' \<rparr>
         else \<lparr> PartitionKey = manifestTag cfg, RowKey = k, content = EdmString buffer, compression = None \<rparr>)"
    have keys: "PartitionKey ent = manifestTag cfg" "RowKey ent = k" by (simp_all add: ent_def)
    have fresh: "\<not> list_ex (sameKey ent) (rowsOf s ?tbl)"
      using False by (auto simp: list_ex_iff sameKey_def keys)
    let ?s3 = "?s1\<lparr> tables := (tables ?s1)(?tbl \<mapsto> rowsOf s ?tbl @ [stamp ent (clock ?s1)]), clock := clock ?s1 + 1 \<rparr>"
    have "upload nd tableService cfg ctx s = (Resolved (stamp ent (clock ?s1)), ?s3)"
      using assms(3,4,5) none insert_healthy[OF h1 fresh]
      by (cases "compressIndex cfg")
         (simp_all add: upload_def c create_healthy[OF assms(1)] q Let_def ent_def)
    moreover have "rowsOf ?s3 ?tbl = rowsOf s ?tbl @ [stamp ent (clock ?s1)]"
      by (simp add: rowsOf_def)
    moreover have "\<forall>t. t \<noteq> ?tbl \<longrightarrow> rowsOf ?s3 t = rowsOf s t"
      using rowsOf_ensureTable[of ?tbl s] by (simp add: rowsOf_def)
    moreover have "PartitionKey (stamp ent (clock ?s1)) = manifestTag cfg" "RowKey (stamp ent (clock ?s1)) = k"
      "content (stamp ent (clock ?s1)) = (if compressIndex cfg then EdmBinary (gzipSync nd buffer) else EdmString buffer)"
      "compression (stamp ent (clock ?s1)) = (if compressIndex cfg then Some ''gzip'' else None)"
      by (simp_all add: stamp_def ent_def)
    ultimately show ?thesis using False by auto
  qed
qed

text \<open>On the example table: \<open>app:a\<close> is a duplicate, \<open>app:n\<close> is inserted.\<close>

theorem upload_duplicate_or_insert_witness:
  "(\<exists>s'. upload exampleNode tableService exampleConfig (exampleContext ''app'' ''a'') (exampleStore 1 [])
            = (Rejected (Reason duplicateMessage), s')
         \<and> rowsOf s' ''emberdeploy'' = exampleRows)
   \<and> (\<exists>r s'. upload exampleNode tableService exampleConfig (exampleContext ''app'' ''n'') (exampleStore 1 [])
            = (Resolved r, s')
         \<and> rowsOf s' ''emberdeploy'' = exampleRows @ [r]
         \<and> PartitionKey r = ''manifest'' \<and> RowKey r = ''app:n''
         \<and> content r = EdmString ''<html>n</html>'' \<and> compression r = None)"
proof -
  have h: "faults (exampleStore 1 []) = []" "0 < pageSize (exampleStore 1 [])"
    "priv_createClient exampleConfig tableService = Inr tableService"
    by (simp_all add: example_config example_store)
  have k: "priv_key exampleConfig (exampleContext ''app'' v) = Inr (''app:'' @ v)" if "v \<noteq> []" for v
    using that
    by (simp add: priv_key_def revisionKeyOf_def priv_projectName_def exampleConfig_def
          exampleContext_def AZURE_DISALLOWED_VALUES_def)
  have f: "readFile exampleNode (path_join exampleNode (distDir (exampleContext ''app'' v)) ''index.html'')
             = Inr ''<html>n</html>''" for v
    by (simp add: exampleNode_def exampleContext_def)
  have r: "rowsOf (exampleStore 1 []) ''emberdeploy'' = exampleRows"
    by (simp add: rowsOf_def example_store)
  have dup: "\<exists>x\<in>set exampleRows. PartitionKey x = ''manifest'' \<and> RowKey x = ''app:a''"
    by (simp add: exampleRows_def exampleRow_def)
  have new: "\<not> (\<exists>x\<in>set exampleRows. PartitionKey x = ''manifest'' \<and> RowKey x = ''app:n'')"
    by (simp add: exampleRows_def exampleRow_def)
  have c: "compressIndex exampleConfig = False" by (simp add: exampleConfig_def)
  have ka: "priv_key exampleConfig (exampleContext ''app'' ''a'') = Inr (''app:'' @ ''a'')"
    and kn: "priv_key exampleConfig (exampleContext ''app'' ''n'') = Inr (''app:'' @ ''n'')"
    by (rule k, simp)+
  have dupc: "\<exists>x\<in>set (rowsOf (exampleStore 1 []) (tableName exampleConfig)).
                 PartitionKey x = manifestTag exampleConfig \<and> RowKey x = ''app:'' @ ''a''"
    using dup r by (simp add: example_config)
  have newc: "\<not> (\<exists>x\<in>set (rowsOf (exampleStore 1 []) (tableName exampleConfig)).
                 PartitionKey x = manifestTag exampleConfig \<and> RowKey x = ''app:'' @ ''n'')"
    using new r by (simp add: example_config)
  have "\<exists>s'. upload exampleNode tableService exampleConfig (exampleContext ''app'' ''a'') (exampleStore 1 [])
            = (Rejected (Reason duplicateMessage), s')
         \<and> (\<forall>t. rowsOf s' t = rowsOf (exampleStore 1 []) t)"
    using upload_duplicate_or_insert [OF h ka f [of "''a''"], unfolded if_P [OF dupc]] .
  then have a: "\<exists>s'. upload exampleNode tableService exampleConfig (exampleContext ''app'' ''a'') (exampleStore 1 [])
            = (Rejected (Reason duplicateMessage), s')
         \<and> rowsOf s' ''emberdeploy'' = exampleRows"
    using r by auto
  have "\<exists>r s'. upload exampleNode tableService exampleConfig (exampleContext ''app'' ''n'') (exampleStore 1 [])
            = (Resolved r, s')
         \<and> rowsOf s' (tableName exampleConfig) = rowsOf (exampleStore 1 []) (tableName exampleConfig) @ [r]
         \<and> (\<forall>t. t \<noteq> tableName exampleConfig \<longrightarrow> rowsOf s' t = rowsOf (exampleStore 1 []) t)
         \<and> PartitionKey r = manifestTag exampleConfig \<and> RowKey r = ''app:'' @ ''n''
         \<and> content r = (if compressIndex exampleConfig
                         then EdmBinary (gzipSync exampleNode ''<html>n</html>'')
                         else EdmString ''<html>n</html>'')
         \<and> compression r = (if compressIndex exampleConfig then Some ''gzip'' else None)"
    using upload_duplicate_or_insert [OF h kn f [of "''n''"], unfolded if_not_P [OF newc]] .
  then have b: "\<exists>r s'. upload exampleNode tableService exampleConfig (exampleContext ''app'' ''n'') (exampleStore 1 [])
            = (Resolved r, s')
         \<and> rowsOf s' ''emberdeploy'' = exampleRows @ [r]
         \<and> PartitionKey r = ''manifest'' \<and> RowKey r = ''app:n''
         \<and> content r = EdmString ''<html>n</html>'' \<and> compression r = None"
    using r c by (auto simp: example_config)
  from a b show ?thesis by blast
qed

section \<open>Activation\<close>

text \<open>
  C10, as amended. \<^verbatim>\<open>willActivate\<close> on the table store, in any state, writes no row: the
  rows of every table are the same afterwards, and the tables themselves are unchanged but
  for one thing, since \<^verbatim>\<open>_current\<close> calls \<^verbatim>\<open>createTableIfNotExists\<close>: when the configured
  table did not exist it may now exist, empty. When the store answers every call and the
  configuration is valid, it resolves, the table exists, and the context differs only in
  its revision data, which is the former record, or a fresh one when there was none, with
  \<open>previousRevisionKey\<close> set to the raw content of the pointer row when there is one and to
  \<open>null\<close> otherwise.
\<close>

theorem willActivate_records_previous:
  assumes "willActivate tableService cfg ctx s = (out, ctx', s')"
  shows "(\<forall>t. rowsOf s' t = rowsOf s t)
       \<and> (tables s' = tables s
            \<or> (tables s (tableName cfg) = None \<and> tables s' = (tables s)(tableName cfg \<mapsto> [])))
       \<and> (faults s = [] \<and> 0 < pageSize s \<and> priv_createClient cfg tableService = Inr tableService
            \<and> priv_currentKey cfg ctx = Inr ck
          \<longrightarrow> out = Resolved ()
            \<and> tables s' (tableName cfg) = Some (rowsOf s (tableName cfg))
            \<and> ctx' = ctx\<lparr> revisionData :=
                  Some ((case revisionData ctx of
                           None \<Rightarrow> \<lparr> revisionKey = None, previousRevisionKey = None,
                                      activatedRevisionKey = None \<rparr>
                         | Some rd \<Rightarrow> rd)
                        \<lparr> previousRevisionKey :=
                            Some (case pointerRow cfg ck s of
                                    None \<Rightarrow> Null
                                  | Some r \<Rightarrow> underscore (content r)) \<rparr>) \<rparr>)"
proof -
  obtain o1 s1 where cur: "priv_current tableService cfg ctx s = (o1, s1)"
    by (cases "priv_current tableService cfg ctx s") auto
  have s': "s' = s1"
    using assms cur by (cases o1) (auto simp: willActivate_def)
  have rows: "\<forall>t. rowsOf s' t = rowsOf s t"
    using current_rows [OF cur] s' by simp
  have tabs: "tables s' = tables s
            \<or> (tables s (tableName cfg) = None \<and> tables s' = (tables s)(tableName cfg \<mapsto> []))"
    using current_tables [OF cur] s' by simp
  have "out = Resolved ()
        \<and> tables s' (tableName cfg) = Some (rowsOf s (tableName cfg))
        \<and> ctx' = ctx\<lparr> revisionData :=
                  Some ((case revisionData ctx of
                           None \<Rightarrow> \<lparr> revisionKey = None, previousRevisionKey = None,
                                      activatedRevisionKey = None \<rparr>
                         | Some rd \<Rightarrow> rd)
                        \<lparr> previousRevisionKey :=
                            Some (case pointerRow cfg ck s of
                                    None \<Rightarrow> Null
                                  | Some r \<Rightarrow> underscore (content r)) \<rparr>) \<rparr>"
    if h: "faults s = []" "0 < pageSize s" "priv_createClient cfg tableService = Inr tableService"
          "priv_currentKey cfg ctx = Inr ck"
    using assms current_healthy [OF h]
    by (cases "revisionData ctx")
       (auto simp: willActivate_def ensureRevisionData_def emptyRevisionData_def tables_ensureTable)
  then show ?thesis using rows tabs by blast
qed

text \<open>On the example table the pointer row holds \<open>app:b\<close>, and the context had no revision data.\<close>

theorem willActivate_records_previous_witness:
  "faults (exampleStore 1 []) = [] \<and> 0 < pageSize (exampleStore 1 [])
   \<and> priv_createClient exampleConfig tableService = Inr tableService
   \<and> priv_currentKey exampleConfig (exampleContext ''app'' ''a'') = Inr ''app:current''
   \<and> pointerRow exampleConfig ''app:current'' (exampleStore 1 []) = Some (exampleRow ''app:current'' ''app:b'' 4)
   \<and> fst (willActivate tableService exampleConfig (exampleContext ''app'' ''a'') (exampleStore 1 []))
       = Resolved ()
   \<and> fst (snd (willActivate tableService exampleConfig (exampleContext ''app'' ''a'') (exampleStore 1 [])))
       = (exampleContext ''app'' ''a'')
           \<lparr> revisionData := Some \<lparr> revisionKey = None, previousRevisionKey = Some (Str ''app:b''),
                                     activatedRevisionKey = None \<rparr> \<rparr>
   \<and> tables (snd (snd (willActivate tableService exampleConfig (exampleContext ''app'' ''a'') (exampleStore 1 []))))
       = tables (exampleStore 1 [])
   \<and> rowsOf (snd (snd (willActivate tableService exampleConfig (exampleContext ''app'' ''a'') (exampleStore 1 []))))
         ''emberdeploy''
       = exampleRows"
proof -
  obtain out ctx' s' where w:
    "willActivate tableService exampleConfig (exampleContext ''app'' ''a'') (exampleStore 1 []) = (out, ctx', s')"
    by (cases "willActivate tableService exampleConfig (exampleContext ''app'' ''a'') (exampleStore 1 [])") auto
  have h: "faults (exampleStore 1 []) = []" "0 < pageSize (exampleStore 1 [])"
    "priv_createClient exampleConfig tableService = Inr tableService"
    "priv_currentKey exampleConfig (exampleContext ''app'' ''a'') = Inr ''app:current''"
    by (simp_all add: example_config example_store)
  have p: "pointerRow exampleConfig ''app:current'' (exampleStore 1 []) = Some (exampleRow ''app:current'' ''app:b'' 4)"
    by (simp add: pointerRow_def rowsOf_def example_config example_store exampleRows_def exampleRow_def)
  have r: "rowsOf (exampleStore 1 []) ''emberdeploy'' = exampleRows"
    by (simp add: rowsOf_def example_store)
  have t: "tables (exampleStore 1 []) (tableName exampleConfig) \<noteq> None"
    by (simp add: example_config example_store)
  have c: "revisionData (exampleContext ''app'' ''a'') = None"
    by (simp add: exampleContext_def)
  have e: "exampleRow ''app:current'' ''app:b'' 4 =
      \<lparr> PartitionKey = ''manifest'', RowKey = ''app:current'', content = EdmString ''app:b'',
        compression = None, Timestamp = 4 \<rparr>"
    by (simp add: exampleRow_def)
  note wa = willActivate_records_previous [OF w, of "''app:current''"]
  have "tables s' = tables (exampleStore 1 [])" using wa t by blast
  moreover have "rowsOf s' ''emberdeploy'' = exampleRows" using wa r by simp
  moreover have "out = Resolved ()"
    and "ctx' = (exampleContext ''app'' ''a'')
           \<lparr> revisionData := Some \<lparr> revisionKey = None, previousRevisionKey = Some (Str ''app:b''),
                                     activatedRevisionKey = None \<rparr> \<rparr>"
    using wa h p by (simp_all add: c e)
  ultimately show ?thesis using h p w by simp
qed

text \<open>
  On a store that holds no table yet, \<^verbatim>\<open>willActivate\<close> resolves and leaves the table
  \<open>emberdeploy\<close> created: the store is written.
\<close>

theorem willActivate_creates_absent_table:
  "tables exampleEmptyStore ''emberdeploy'' = None
   \<and> fst (willActivate tableService exampleConfig (exampleContext ''app'' ''a'') exampleEmptyStore)
       = Resolved ()
   \<and> tables (snd (snd (willActivate tableService exampleConfig (exampleContext ''app'' ''a'')
                          exampleEmptyStore))) ''emberdeploy''
       = Some []"
  by code_simp

text \<open>
  C1. What \<^verbatim>\<open>activate\<close> does on a table store that answers every call when the derived
  key \<open>k\<close> is not among the listed revisions: the promise is rejected with
  \<open>Revision k not in manifest\<close> and the context is unchanged, but the pointer row has been
  upserted all the same and now holds \<open>k\<close>. The first callback rejects and returns
  \<^verbatim>\<open>false\<close>; the second callback ignores what the first returned and writes.
\<close>

theorem activate_unlisted_rejects_but_writes:
  assumes "faults s = []" and "0 < pageSize s"
      and "priv_key cfg ctx = Inr k"
      and "priv_currentKey cfg ctx = Inr ck"
      and "priv_list tableService cfg ctx s = Some (Resolved rs, s1)"
      and "k \<notin> revision ` set rs"
  shows "\<exists>s'. activate tableService cfg ctx s = Some (Rejected (Reason (notInManifest k)), ctx, s')
           \<and> pointerRow cfg ck s' =
               Some \<lparr> PartitionKey = manifestTag cfg, RowKey = ck, content = EdmString k,
                      compression = None, Timestamp = clock s \<rparr>"
proof -
  obtain p where pn: "priv_projectName cfg ctx = Inr p"
    using key_projectName [OF assms(3)] by blast
  have ck: "ck = p @ '':current''" using pn assms(4) by (simp add: priv_currentKey_def)
  have cc: "priv_createClient cfg tableService = Inr tableService"
    using list_resolved_config [OF assms(5)] by simp
  have unlisted: "k \<notin> RowKey ` set (revisionRows cfg (p @ '':current'') s)"
    using listed_revisions [OF assms(1,2,5) pn] assms(6) by simp
  from activate_healthy [OF assms(1,2) cc pn assms(3)] unlisted obtain s' where
    act: "activate tableService cfg ctx s = Some (Rejected (Reason (notInManifest k)), ctx, s')"
    and rows: "rowsOf s' (tableName cfg) =
                filter (\<lambda>x. \<not> (PartitionKey x = manifestTag cfg \<and> RowKey x = p @ '':current''))
                   (rowsOf s (tableName cfg))
                @ [\<lparr> PartitionKey = manifestTag cfg, RowKey = p @ '':current'', content = EdmString k,
                      compression = None, Timestamp = clock s \<rparr>]"
    by auto
  have "pointerRow cfg ck s' = Some \<lparr> PartitionKey = manifestTag cfg, RowKey = ck, content = EdmString k,
                      compression = None, Timestamp = clock s \<rparr>"
    unfolding pointerRow_def rows ck by (subst pointer_after) simp
  then show ?thesis using act by blast
qed

text \<open>
  On the example table the pointer row holds \<open>app:b\<close>; activating the unknown revision
  \<open>zzz\<close> is rejected and leaves the pointer row holding \<open>app:zzz\<close>.
\<close>

theorem activate_unlisted_rejects_but_writes_witness:
  "faults (exampleStore 1 []) = [] \<and> 0 < pageSize (exampleStore 1 [])
   \<and> priv_key exampleConfig (exampleContext ''app'' ''zzz'') = Inr ''app:zzz''
   \<and> priv_currentKey exampleConfig (exampleContext ''app'' ''zzz'') = Inr ''app:current''
   \<and> map_option fst (priv_list tableService exampleConfig (exampleContext ''app'' ''zzz'') (exampleStore 1 []))
       = Some (Resolved [\<lparr> revision = ''app:b'', timestamp = 3, active = True \<rparr>,
                         \<lparr> revision = ''app:c'', timestamp = 2, active = False \<rparr>,
                         \<lparr> revision = ''app:a'', timestamp = 1, active = False \<rparr>])
   \<and> pointerRow exampleConfig ''app:current'' (exampleStore 1 [])
       = Some (exampleRow ''app:current'' ''app:b'' 4)
   \<and> (\<exists>s'. activate tableService exampleConfig (exampleContext ''app'' ''zzz'') (exampleStore 1 [])
               = Some (Rejected (Reason ''Revision app:zzz not in manifest''),
                       exampleContext ''app'' ''zzz'', s')
           \<and> pointerRow exampleConfig ''app:current'' s'
               = Some (exampleRow ''app:current'' ''app:zzz'' 10))"
proof -
  let ?L = "[\<lparr> revision = ''app:b'', timestamp = 3, active = True \<rparr>,
             \<lparr> revision = ''app:c'', timestamp = 2, active = False \<rparr>,
             \<lparr> revision = ''app:a'', timestamp = 1, active = False \<rparr>]"
  have h: "faults (exampleStore 1 []) = []" "0 < pageSize (exampleStore 1 [])"
    by (simp_all add: example_store)
  have k: "priv_key exampleConfig (exampleContext ''app'' ''zzz'') = Inr ''app:zzz''"
    by (simp add: priv_key_def revisionKeyOf_def priv_projectName_def exampleConfig_def
          exampleContext_def AZURE_DISALLOWED_VALUES_def)
  have ck: "priv_currentKey exampleConfig (exampleContext ''app'' ''zzz'') = Inr ''app:current''"
    by (rule example_config)
  have a: "map_option fst (priv_list tableService exampleConfig (exampleContext ''app'' ''zzz'') (exampleStore 1 []))
     = Some (Resolved ?L)"
    by code_simp
  then obtain s1 where l:
    "priv_list tableService exampleConfig (exampleContext ''app'' ''zzz'') (exampleStore 1 []) = Some (Resolved ?L, s1)"
    by (cases "priv_list tableService exampleConfig (exampleContext ''app'' ''zzz'') (exampleStore 1 [])") auto
  have m: "''app:zzz'' \<notin> revision ` set ?L" by simp
  have p: "pointerRow exampleConfig ''app:current'' (exampleStore 1 []) = Some (exampleRow ''app:current'' ''app:b'' 4)"
    by (simp add: pointerRow_def rowsOf_def example_config example_store exampleRows_def exampleRow_def)
  have "\<exists>s'. activate tableService exampleConfig (exampleContext ''app'' ''zzz'') (exampleStore 1 [])
               = Some (Rejected (Reason ''Revision app:zzz not in manifest''),
                       exampleContext ''app'' ''zzz'', s')
           \<and> pointerRow exampleConfig ''app:current'' s'
               = Some (exampleRow ''app:current'' ''app:zzz'' 10)"
    using activate_unlisted_rejects_but_writes [OF h k ck l m]
    by (simp add: notInManifest_def example_config example_store exampleRow_def)
  then show ?thesis using h k ck a p by blast
qed

text \<open>
  C2. On a table store that answers every call, when the derived key \<open>k\<close> is among the
  listed revisions, \<^verbatim>\<open>activate\<close> resolves; afterwards \<^verbatim>\<open>_current\<close> resolves with \<open>k\<close>, and
  \<^verbatim>\<open>_list\<close> resolves with a sequence that still holds \<open>k\<close> and in which an entry is marked
  active exactly when its revision is \<open>k\<close>.
\<close>

theorem activate_listed_sets_current:
  assumes "faults s = []" and "0 < pageSize s"
      and "priv_key cfg ctx = Inr k"
      and "priv_list tableService cfg ctx s = Some (Resolved rs, s1)"
      and "k \<in> revision ` set rs"
  shows "\<exists>ctx' s'. activate tableService cfg ctx s = Some (Resolved (), ctx', s')
           \<and> fst (priv_current tableService cfg ctx' s') = Resolved (Str k)
           \<and> (\<exists>rs' s''. priv_list tableService cfg ctx' s' = Some (Resolved rs', s'')
                  \<and> k \<in> revision ` set rs'
                  \<and> (\<forall>r\<in>set rs'. active r = (revision r = k)))"
proof -
  let ?tbl = "tableName cfg"
  obtain p r where pn: "priv_projectName cfg ctx = Inr p" and k: "k = p @ '':'' @ r"
    using key_projectName [OF assms(3)] by blast
  let ?ck = "p @ '':current''"
  let ?ctx' = "ctx\<lparr> revisionData := Some ((ensureRevisionData ctx)\<lparr> activatedRevisionKey := Some k \<rparr>) \<rparr>"
  let ?ptr = "\<lparr> PartitionKey = manifestTag cfg, RowKey = ?ck, content = EdmString k,
               compression = None, Timestamp = clock s \<rparr>"
  have cc: "priv_createClient cfg tableService = Inr tableService"
    using list_resolved_config [OF assms(4)] by simp
  have listed: "k \<in> RowKey ` set (revisionRows cfg ?ck s)"
    using listed_revisions [OF assms(1,2,4) pn] assms(5) by simp
  from activate_healthy [OF assms(1,2) cc pn assms(3)] listed obtain s' where
    act: "activate tableService cfg ctx s = Some (Resolved (), ?ctx', s')"
    and h': "faults s' = []" "pageSize s' = pageSize s"
    and rows: "rowsOf s' ?tbl =
                filter (\<lambda>x. \<not> (PartitionKey x = manifestTag cfg \<and> RowKey x = ?ck)) (rowsOf s ?tbl) @ [?ptr]"
    by auto
  have ps: "0 < pageSize s'" using h'(2) assms(2) by simp
  have "priv_currentKey cfg ?ctx' = priv_currentKey cfg ctx"
    by (rule currentKey_revisionData)
  then have ck': "priv_currentKey cfg ?ctx' = Inr ?ck"
    using pn by (simp add: priv_currentKey_def)
  have ptr: "pointerRow cfg ?ck s' = Some ?ptr"
    unfolding pointerRow_def rows by (subst pointer_after) simp
  have revs: "revisionRows cfg ?ck s' = revisionRows cfg ?ck s"
    unfolding revisionRows_def rows by (rule revisions_after) simp_all
  have cur: "priv_current tableService cfg ?ctx' s' = (Resolved (Str k), ensureTable ?tbl s')"
    using current_healthy [OF h'(1) ps cc ck'] by (simp add: ptr)
  have lst: "priv_list tableService cfg ?ctx' s' =
      Some (Resolved (map (mapEntry (Str k)) (sortEntries (revisionRows cfg ?ck s))), ensureTable ?tbl s')"
    using list_healthy [OF h'(1) ps cc ck'] by (simp add: ptr revs)
  have a: "k \<in> revision ` set (map (mapEntry (Str k)) (sortEntries (revisionRows cfg ?ck s)))"
    using listed revision_mapEntry [of "Str k" "sortEntries (revisionRows cfg ?ck s)"]
    by (metis list.set_map mset_sortEntries set_mset_mset)
  have b: "\<forall>r\<in>set (map (mapEntry (Str k)) (sortEntries (revisionRows cfg ?ck s))). active r = (revision r = k)"
    by (auto simp: mapEntry_def)
  have "\<exists>rs' s''. priv_list tableService cfg ?ctx' s' = Some (Resolved rs', s'')
                  \<and> k \<in> revision ` set rs'
                  \<and> (\<forall>r\<in>set rs'. active r = (revision r = k))"
    using lst a b by blast
  moreover have "fst (priv_current tableService cfg ?ctx' s') = Resolved (Str k)"
    using cur by simp
  ultimately show ?thesis using act by blast
qed

text \<open>On the example table \<open>app:a\<close> is listed and the pointer moves from \<open>app:b\<close> to it.\<close>

theorem activate_listed_sets_current_witness:
  "faults (exampleStore 1 []) = [] \<and> 0 < pageSize (exampleStore 1 [])
   \<and> priv_key exampleConfig (exampleContext ''app'' ''a'') = Inr ''app:a''
   \<and> map_option fst (priv_list tableService exampleConfig (exampleContext ''app'' ''a'') (exampleStore 1 []))
       = Some (Resolved [\<lparr> revision = ''app:b'', timestamp = 3, active = True \<rparr>,
                         \<lparr> revision = ''app:c'', timestamp = 2, active = False \<rparr>,
                         \<lparr> revision = ''app:a'', timestamp = 1, active = False \<rparr>])
   \<and> (\<exists>ctx' s'. activate tableService exampleConfig (exampleContext ''app'' ''a'') (exampleStore 1 [])
                    = Some (Resolved (), ctx', s')
           \<and> fst (priv_current tableService exampleConfig ctx' s') = Resolved (Str ''app:a'')
           \<and> (\<exists>rs' s''. priv_list tableService exampleConfig ctx' s' = Some (Resolved rs', s'')
                  \<and> ''app:a'' \<in> revision ` set rs'
                  \<and> (\<forall>r\<in>set rs'. active r = (revision r = ''app:a''))))"
proof -
  let ?L = "[\<lparr> revision = ''app:b'', timestamp = 3, active = True \<rparr>,
             \<lparr> revision = ''app:c'', timestamp = 2, active = False \<rparr>,
             \<lparr> revision = ''app:a'', timestamp = 1, active = False \<rparr>]"
  have h: "faults (exampleStore 1 []) = []" "0 < pageSize (exampleStore 1 [])"
    by (simp_all add: example_store)
  have k: "priv_key exampleConfig (exampleContext ''app'' ''a'') = Inr ''app:a''"
    by (simp add: priv_key_def revisionKeyOf_def priv_projectName_def exampleConfig_def
          exampleContext_def AZURE_DISALLOWED_VALUES_def)
  have a: "map_option fst (priv_list tableService exampleConfig (exampleContext ''app'' ''a'') (exampleStore 1 []))
     = Some (Resolved ?L)"
    by code_simp
  then obtain s1 where l:
    "priv_list tableService exampleConfig (exampleContext ''app'' ''a'') (exampleStore 1 []) = Some (Resolved ?L, s1)"
    by (cases "priv_list tableService exampleConfig (exampleContext ''app'' ''a'') (exampleStore 1 [])") auto
  have m: "''app:a'' \<in> revision ` set ?L" by simp
  from activate_listed_sets_current [OF h k l m] h k a show ?thesis by blast
qed

end
